theory Spec2Isabelle
  imports Main
begin

section \<open>JavaScript values\<close>

text \<open>
  The payloads of the event stream are untyped JavaScript values (\<open>any\<close>, \<open>unknown\<close>).
  They are modelled by the values \<open>JSON.parse\<close> can produce, plus \<open>undefined\<close>, which
  is what reading a missing property gives. An object is the list of its own properties.
  A string is the list of its code units, one \<open>char\<close> per code unit (code units
  0 to 255). A number is carried by its rendering (what \<open>Number.prototype.toString\<close>
  gives, \<open>0\<close> for both zeros): the code only tests a number for truthiness and turns
  it into a string.
\<close>

datatype json =
    JUndefined
  | JNull
  | JBool bool
  | JNum string
  | JStr string
  | JArr "json list"
  | JObj "(string \<times> json) list"

text \<open>The number of characters a JSON text needs at least to denote the value.\<close>

fun jsize :: "json \<Rightarrow> nat" where
  "jsize JUndefined = 0"
| "jsize JNull = 1"
| "jsize (JBool b) = 1"
| "jsize (JNum n) = 1"
| "jsize (JStr s) = Suc (length s)"
| "jsize (JArr xs) = Suc (sum_list (map jsize xs))"
| "jsize (JObj fs) = Suc (sum_list (map (\<lambda>kv. jsize (snd kv)) fs))"

text \<open>\<open>v.k\<close> and \<open>v?.k\<close> for the property names the code reads; none of them is a
  property of a primitive, of an array or of \<open>Object.prototype\<close>, so the read gives
  \<open>undefined\<close> unless \<open>v\<close> is an object that owns \<open>k\<close>.\<close>

fun getField :: "json \<Rightarrow> string \<Rightarrow> json" where
  "getField (JObj fs) k = (case map_of fs k of Some v \<Rightarrow> v | None \<Rightarrow> JUndefined)"
| "getField v k = JUndefined"

text \<open>\<open>typeof v === "string"\<close>, \<open>Array.isArray(v)\<close>, and the string or the elements
  once the test has passed.\<close>

fun isString :: "json \<Rightarrow> bool" where
  "isString (JStr s) = True"
| "isString v = False"

fun strVal :: "json \<Rightarrow> string" where
  "strVal (JStr s) = s"
| "strVal v = []"

fun isArray :: "json \<Rightarrow> bool" where
  "isArray (JArr xs) = True"
| "isArray v = False"

fun isObject :: "json \<Rightarrow> bool" where
  "isObject (JObj fs) = True"
| "isObject v = False"

fun elems :: "json \<Rightarrow> json list" where
  "elems (JArr xs) = xs"
| "elems v = []"

text \<open>Truthiness: what \<open>if (v)\<close>, \<open>!v\<close> and \<open>v && ...\<close> test.\<close>

fun truthy :: "json \<Rightarrow> bool" where
  "truthy JUndefined = False"
| "truthy JNull = False"
| "truthy (JBool b) = b"
| "truthy (JNum n) = (n \<noteq> ''0'' \<and> n \<noteq> ''NaN'')"
| "truthy (JStr s) = (s \<noteq> [])"
| "truthy (JArr xs) = True"
| "truthy (JObj fs) = True"

text \<open>\<open>a ?? b\<close>\<close>

fun nullish :: "json \<Rightarrow> bool" where
  "nullish JUndefined = True"
| "nullish JNull = True"
| "nullish v = False"

definition coalesce :: "json \<Rightarrow> json \<Rightarrow> json" where
  "coalesce a b = (if nullish a then b else a)"

subsection \<open>\<open>JSON.parse\<close>\<close>

text \<open>
  \<open>JSON.parse\<close> belongs to the JavaScript runtime, not to the repository. It is a
  parameter of the model: a function from the text to the parsed value, \<open>None\<close> when it
  throws a \<open>SyntaxError\<close>. All that is used of it is that a value is never larger than
  the text it was parsed from.
\<close>

typedef parser = "{p :: string \<Rightarrow> json option. \<forall>s v. p s = Some v \<longrightarrow> jsize v \<le> length s}"
  by (rule exI [of _ "\<lambda>s. None"]) simp

definition JSON_parse :: "parser \<Rightarrow> string \<Rightarrow> json option" where
  "JSON_parse P s = Rep_parser P s"

text \<open>A parser given by a finite table of texts and their values, for concrete runs.\<close>

definition tableParser :: "(string \<times> json) list \<Rightarrow> parser" where
  "tableParser tbl =
     Abs_parser (\<lambda>s. case map_of tbl s of
                        None \<Rightarrow> None
                      | Some v \<Rightarrow> if jsize v \<le> length s then Some v else None)"

section \<open>Payload normalizer\<close>

subsection \<open>String primitives\<close>

definition squote :: char where "squote = CHR 0x27"
definition dquote :: char where "dquote = CHR 0x22"
definition backslash :: char where "backslash = CHR 0x5C"
definition newline :: char where "newline = CHR 0x0A"
definition tab :: char where "tab = CHR 0x09"

text \<open>The white space of \<open>\s\<close> and of \<open>String.prototype.trim\<close>: tab, line feed, vertical
  tab, form feed, carriage return, space, no-break space.\<close>

definition isSpace :: "char \<Rightarrow> bool" where
  "isSpace c = (c \<in> set [CHR 0x09, CHR 0x0A, CHR 0x0B, CHR 0x0C, CHR 0x0D, CHR 0x20, CHR 0xA0])"

definition trim :: "string \<Rightarrow> string" where
  "trim s = rev (dropWhile isSpace (rev (dropWhile isSpace s)))"

definition startsWith :: "string \<Rightarrow> string \<Rightarrow> bool" where
  "startsWith s p = (take (length p) s = p)"

text \<open>\<open>text.replace(/\\n/g, "\n")\<close>: every backslash followed by the letter, left to
  right, becomes the one character.\<close>

fun replaceEscape :: "char \<Rightarrow> char \<Rightarrow> string \<Rightarrow> string" where
  "replaceEscape l r (x # y # zs) =
     (if x = backslash \<and> y = l then r # replaceEscape l r zs
      else x # replaceEscape l r (y # zs))"
| "replaceEscape l r zs = zs"

definition normalizeEscapes :: "string \<Rightarrow> string" where
  "normalizeEscapes text =
     replaceEscape (CHR ''t'') tab (replaceEscape (CHR ''n'') newline text)"

subsection \<open>The two regular expressions of \<open>extractTextFromPythonLiteral\<close>\<close>

text \<open>
  \<open>/'text':\s*'([^']*)'/\<close> tried at the start of \<open>s\<close>: the capture and the rest of the
  string after the match. Nothing in the pattern can match in two ways, so there is no
  backtracking to model.
\<close>

definition textKey :: string where
  "textKey = squote # ''text'' @ [squote] @ '':''"

definition matchTextAt :: "string \<Rightarrow> (string \<times> string) option" where
  "matchTextAt s =
     (if startsWith s textKey then
        (case dropWhile isSpace (drop (length textKey) s) of
           [] \<Rightarrow> None
         | q # r \<Rightarrow>
             if q = squote then
               (case dropWhile (\<lambda>c. c \<noteq> squote) r of
                  [] \<Rightarrow> None
                | q' # rest \<Rightarrow> Some (takeWhile (\<lambda>c. c \<noteq> squote) r, rest))
             else None)
      else None)"

lemma matchTextAt_shorter:
  assumes "matchTextAt s = Some (cap, rest)"
  shows "length rest < length s"
proof -
  from assms obtain q r q' where
    a: "dropWhile isSpace (drop (length textKey) s) = q # r" and
    b: "dropWhile (\<lambda>c. c \<noteq> squote) r = q' # rest"
    by (auto simp: matchTextAt_def split: if_splits list.splits)
  have "length rest < length (dropWhile (\<lambda>c. c \<noteq> squote) r)"
    using b by simp
  also have "\<dots> \<le> length r"
    by (rule length_dropWhile_le)
  also have "\<dots> < length (dropWhile isSpace (drop (length textKey) s))"
    using a by simp
  also have "\<dots> \<le> length (drop (length textKey) s)"
    by (rule length_dropWhile_le)
  also have "\<dots> \<le> length s"
    by simp
  finally show ?thesis .
qed

text \<open>\<open>raw.matchAll(/'text':\s*'([^']*)'/g)\<close>, as the list of the captures: the
  search goes on after each match, and one character further where there is none.\<close>

function matchAllText :: "string \<Rightarrow> string list" where
  "matchAllText [] = []"
| "matchAllText (c # cs) =
     (case matchTextAt (c # cs) of
        Some (cap, rest) \<Rightarrow> cap # matchAllText rest
      | None \<Rightarrow> matchAllText cs)"
  by pat_completeness auto
termination
  by (relation "measure length") (auto dest: matchTextAt_shorter)

definition contentKey :: string where
  "contentKey = ''content='' @ [squote]"

text \<open>\<open>/content='([^']+)'/\<close> tried at the start of \<open>s\<close>: the capture.\<close>

definition matchContentAt :: "string \<Rightarrow> string option" where
  "matchContentAt s =
     (if startsWith s contentKey then
        (let r = drop (length contentKey) s; cap = takeWhile (\<lambda>c. c \<noteq> squote) r in
         if cap \<noteq> [] \<and> dropWhile (\<lambda>c. c \<noteq> squote) r \<noteq> [] then Some cap else None)
      else None)"

text \<open>\<open>raw.match(/content='([^']+)'/)\<close>: the leftmost match.\<close>

fun matchContent :: "string \<Rightarrow> string option" where
  "matchContent [] = None"
| "matchContent (c # cs) =
     (case matchContentAt (c # cs) of
        Some cap \<Rightarrow> Some cap
      | None \<Rightarrow> matchContent cs)"

definition extractTextFromPythonLiteral :: "string \<Rightarrow> string option" where
  "extractTextFromPythonLiteral raw =
     (let matches = matchAllText raw in
      if length matches > 0 then Some (normalizeEscapes (concat matches))
      else (case matchContent raw of
              Some cap \<Rightarrow> Some (normalizeEscapes cap)
            | None \<Rightarrow> None))"

subsection \<open>\<open>ensureString\<close>\<close>

text \<open>The test that guards the parse: the trimmed string starts with a brace or a
  bracket and has a double quote in it.\<close>

definition looksLikeJson :: "string \<Rightarrow> bool" where
  "looksLikeJson trimmed =
     ((startsWith trimmed ''{'' \<or> startsWith trimmed ''['') \<and> dquote \<in> set trimmed)"

text \<open>The text of one element of an array: the element when it is a string, its
  \<open>text\<close> property when that is a string, the empty string otherwise.\<close>

definition partText :: "json \<Rightarrow> string" where
  "partText part =
     (if isString part then strVal part
      else if isString (getField part ''text'') then strVal (getField part ''text'')
      else [])"

lemma parser_bound: "JSON_parse P s = Some v \<Longrightarrow> jsize v \<le> length s"
  using Rep_parser [of P] by (simp add: JSON_parse_def)

lemma length_trim_le: "length (trim s) \<le> length s"
proof -
  have "length (trim s) \<le> length (dropWhile isSpace s)"
    unfolding trim_def using length_dropWhile_le [of isSpace "rev (dropWhile isSpace s)"]
    by simp
  also have "\<dots> \<le> length s"
    by (rule length_dropWhile_le)
  finally show ?thesis .
qed

lemma jsize_map_of:
  "map_of fs k = Some v \<Longrightarrow> jsize v \<le> sum_list (map (\<lambda>kv. jsize (snd kv)) fs)"
  by (induction fs) (auto split: if_splits)

lemma jsize_getField_obj: "jsize (getField (JObj fs) k) < jsize (JObj fs)"
  using jsize_map_of [of fs k] by (auto split: option.splits simp: less_Suc_eq_le)

lemma jsize_getField_le: "jsize (getField v k) \<le> jsize v"
  using jsize_getField_obj by (cases v) (simp_all add: less_imp_le del: getField.simps(1))

lemma jsize_hd_elems: "elems v \<noteq> [] \<Longrightarrow> jsize (hd (elems v)) < jsize v"
  by (cases v; cases "elems v") auto

lemma jsize_choice:
  assumes "elems (getField (JObj fs) ''choices'') \<noteq> []"
  shows "jsize (getField (hd (elems (getField (JObj fs) ''choices''))) k) < jsize (JObj fs)"
proof -
  have "jsize (getField (hd (elems (getField (JObj fs) ''choices''))) k)
          \<le> jsize (hd (elems (getField (JObj fs) ''choices'')))"
    by (rule jsize_getField_le)
  also have "\<dots> < jsize (getField (JObj fs) ''choices'')"
    using assms by (rule jsize_hd_elems)
  also have "\<dots> < jsize (JObj fs)"
    by (rule jsize_getField_obj)
  finally show ?thesis .
qed

text \<open>
  The result is \<open>Some text\<close> for a string and \<open>None\<close> for \<open>null\<close>. Nothing in the
  function throws outside the \<open>try\<close> around \<open>JSON.parse\<close>, so there is no error
  result. The recursion follows the source: into the parsed value of a string, and into
  the \<open>content\<close>, \<open>delta\<close> and \<open>choices[0]\<close> of an object.
\<close>

function ensureString :: "parser \<Rightarrow> json \<Rightarrow> string option" where
  "ensureString P (JStr val) =
     (case (if looksLikeJson (trim val) then
              (case JSON_parse P (trim val) of
                 None \<Rightarrow> None
               | Some parsed \<Rightarrow>
                   (case ensureString P parsed of
                      None \<Rightarrow> None
                    | Some parsedText \<Rightarrow> if parsedText \<noteq> [] then Some parsedText else None))
            else None) of
        Some parsedText \<Rightarrow> Some parsedText
      | None \<Rightarrow>
          (case extractTextFromPythonLiteral val of
             Some pythonLiteral \<Rightarrow> Some pythonLiteral
           | None \<Rightarrow> Some (normalizeEscapes val)))"
| "ensureString P (JArr val) =
     (if length (concat (map partText val)) > 0 then Some (concat (map partText val))
      else None)"
| "ensureString P (JObj fs) =
     (if isString (getField (JObj fs) ''text'') then Some (strVal (getField (JObj fs) ''text''))
      else if isArray (getField (JObj fs) ''content'') then
        ensureString P (getField (JObj fs) ''content'')
      else if isString (getField (JObj fs) ''content'') then
        ensureString P (getField (JObj fs) ''content'')
      else if isArray (getField (JObj fs) ''delta'') then
        ensureString P (getField (JObj fs) ''delta'')
      else if isArray (getField (JObj fs) ''choices'')
              \<and> length (elems (getField (JObj fs) ''choices'')) > 0 then
        (if truthy (getField (hd (elems (getField (JObj fs) ''choices''))) ''delta'') then
           ensureString P (getField (hd (elems (getField (JObj fs) ''choices''))) ''delta'')
         else if truthy (getField (hd (elems (getField (JObj fs) ''choices''))) ''message'') then
           ensureString P (getField (hd (elems (getField (JObj fs) ''choices''))) ''message'')
         else None)
      else None)"
| "ensureString P JUndefined = None"
| "ensureString P JNull = None"
| "ensureString P (JBool b) = None"
| "ensureString P (JNum n) = None"
  by pat_completeness auto
termination
proof (relation "measure (\<lambda>(P, v). jsize v)")
  show "wf (measure (\<lambda>(P, v). jsize v))"
    by simp
next
  fix P val parsed
  assume "JSON_parse P (trim val) = Some parsed"
  then have "jsize parsed \<le> length (trim val)"
    by (rule parser_bound)
  also have "\<dots> \<le> length val"
    by (rule length_trim_le)
  finally show "((P, parsed), (P, JStr val)) \<in> measure (\<lambda>(P, v). jsize v)"
    by simp
qed (simp_all add: jsize_getField_obj jsize_choice del: getField.simps(1) jsize.simps)

subsection \<open>\<open>extractStreamText\<close> and \<open>extractFinalText\<close>\<close>

text \<open>\<open>payload?.a?.b\<close>: the properties read one after the other.\<close>

definition path :: "json \<Rightarrow> string list \<Rightarrow> json" where
  "path v ks = foldl getField v ks"

text \<open>The \<open>for\<close> loop over the candidates: the first text that is truthy and of
  positive length is returned.\<close>

fun firstText :: "parser \<Rightarrow> json list \<Rightarrow> string option" where
  "firstText P [] = None"
| "firstText P (candidate # rest) =
     (case ensureString P candidate of
        None \<Rightarrow> firstText P rest
      | Some text \<Rightarrow> if text \<noteq> [] \<and> length text > 0 then Some text else firstText P rest)"

definition streamCandidates :: "json \<Rightarrow> json list" where
  "streamCandidates payload =
     [path payload [''chunk'', ''content''],
      path payload [''chunk'', ''text''],
      path payload [''chunk'', ''delta''],
      path payload [''chunk''],
      path payload [''data'', ''chunk'', ''content''],
      path payload [''data'', ''chunk'', ''text''],
      path payload [''data'', ''chunk'', ''delta''],
      path payload [''data'', ''chunk''],
      path payload [''data'', ''content''],
      path payload [''data'', ''text''],
      path payload [''delta''],
      path payload [''content'']]"

definition extractStreamText :: "parser \<Rightarrow> json \<Rightarrow> string option" where
  "extractStreamText P payload =
     (if \<not> truthy payload then None else firstText P (streamCandidates payload))"

definition finalCandidates :: "json \<Rightarrow> json list" where
  "finalCandidates payload =
     [path payload [''data'', ''output'', ''content''],
      path payload [''data'', ''output'', ''text''],
      path payload [''data'', ''output''],
      path payload [''data'', ''content''],
      path payload [''data'', ''text''],
      path payload [''output'', ''content''],
      path payload [''output'', ''text''],
      path payload [''output''],
      path payload [''content''],
      path payload [''message''],
      path payload [''delta'']]"

definition extractFinalText :: "parser \<Rightarrow> json \<Rightarrow> string option" where
  "extractFinalText P payload =
     (if \<not> truthy payload then None else firstText P (finalCandidates payload))"

text \<open>What the specification says of the two: the first candidate of the ranked list
  that normalizes to a non-empty text, \<open>null\<close> when there is none.\<close>

definition normalizesToText :: "parser \<Rightarrow> json \<Rightarrow> bool" where
  "normalizesToText P candidate =
     (case ensureString P candidate of None \<Rightarrow> False | Some text \<Rightarrow> text \<noteq> [])"

definition firstNormalized :: "parser \<Rightarrow> json list \<Rightarrow> string option" where
  "firstNormalized P candidates =
     (case find (normalizesToText P) candidates of
        None \<Rightarrow> None
      | Some candidate \<Rightarrow> ensureString P candidate)"

definition nonEmptyOrNull :: "string option \<Rightarrow> bool" where
  "nonEmptyOrNull r = (case r of None \<Rightarrow> True | Some text \<Rightarrow> 1 \<le> length text)"

section \<open>Transcript aggregator\<close>

subsection \<open>Turns and parts\<close>

text \<open>
  A turn (\<open>ChatMessage\<close>) has an id, a role, its parts and the creation time of its
  metadata. A part is an object with a \<open>type\<close> and a \<open>text\<close> property, kept as the
  JavaScript value it is: the code tests \<open>part?.type\<close> and \<open>typeof part.text\<close>
  itself.
\<close>

record chatMessage =
  msg_id :: string
  role :: string
  parts :: "json list"
  createdAt :: string

text \<open>\<open>{...obj, k: v}\<close>: the property is overwritten where it stands, or added last.\<close>

fun updateAssoc :: "string \<Rightarrow> json \<Rightarrow> (string \<times> json) list \<Rightarrow> (string \<times> json) list" where
  "updateAssoc k v [] = [(k, v)]"
| "updateAssoc k v (kv # fs) = (if fst kv = k then (k, v) # fs else kv # updateAssoc k v fs)"

fun ownProperties :: "json \<Rightarrow> (string \<times> json) list" where
  "ownProperties (JObj fs) = fs"
| "ownProperties v = []"

text \<open>\<open>{...(part ?? {type: partType}), type: partType, text: nextText}\<close>\<close>

definition withTypeAndText :: "json \<Rightarrow> string \<Rightarrow> string \<Rightarrow> json" where
  "withTypeAndText part partType nextText =
     JObj (updateAssoc ''text'' (JStr nextText)
            (updateAssoc ''type'' (JStr partType) (ownProperties part)))"

text \<open>\<open>parts.findIndex(p)\<close>, \<open>None\<close> for -1.\<close>

fun findIndex :: "('a \<Rightarrow> bool) \<Rightarrow> 'a list \<Rightarrow> nat option" where
  "findIndex p [] = None"
| "findIndex p (x # xs) = (if p x then Some 0 else map_option Suc (findIndex p xs))"

definition hasType :: "string \<Rightarrow> json \<Rightarrow> bool" where
  "hasType partType part = (getField part ''type'' = JStr partType)"

text \<open>The \<open>previousText\<close> of \<open>updateLastAssistantPart\<close>: the text of the first part
  of the type when it is a string, the empty string otherwise.\<close>

definition previousTextOf :: "string \<Rightarrow> json list \<Rightarrow> string" where
  "previousTextOf partType ps =
     (case findIndex (hasType partType) ps of
        None \<Rightarrow> []
      | Some idx \<Rightarrow>
          if isString (getField (ps ! idx) ''text'') then strVal (getField (ps ! idx) ''text'')
          else [])"

definition nextPartsOf :: "string \<Rightarrow> string \<Rightarrow> json list \<Rightarrow> json list" where
  "nextPartsOf partType nextText ps =
     (case findIndex (hasType partType) ps of
        Some idx \<Rightarrow> take idx ps @ [withTypeAndText (ps ! idx) partType nextText] @ drop (idx + 1) ps
      | None \<Rightarrow> ps @ [JObj [(''type'', JStr partType), (''text'', JStr nextText)]])"

text \<open>
  What a state updater gives back to React: the array it was given (\<open>Same\<close>: the state
  keeps its identity and nothing is rendered again) or a new array (\<open>Fresh\<close>).
\<close>

datatype 'a update = Same | Fresh 'a

text \<open>
  The function passed to \<open>setMessages\<close> by \<open>updateLastAssistantPart\<close>. The
  \<open>updater\<close> gives \<open>None\<close> when it throws; the \<open>catch\<close> then returns the array as it
  was.
\<close>

definition updateLastAssistantPart ::
  "string \<Rightarrow> (string \<Rightarrow> string option) \<Rightarrow> chatMessage list \<Rightarrow> chatMessage list update" where
  "updateLastAssistantPart partType updater prevMessages =
     (if length prevMessages = 0 then Same
      else
        let lastIndex = length prevMessages - 1;
            lastMessage = prevMessages ! lastIndex
        in
          if role lastMessage \<noteq> ''assistant'' then Same
          else
            let previousText = previousTextOf partType (parts lastMessage)
            in
              (case updater previousText of
                 None \<Rightarrow> Same
               | Some nextText \<Rightarrow>
                   if nextText = previousText then Same
                   else
                     Fresh (prevMessages
                       [lastIndex := lastMessage
                          \<lparr>parts := nextPartsOf partType nextText (parts lastMessage)\<rparr>])))"

subsection \<open>The state of the chat component\<close>

text \<open>
  The descriptions of the error toasts. The fixed ones are Chinese sentences in the
  source; they are named here by what they say. \<open>Described\<close> carries a description
  taken from a payload or from a thrown error.
\<close>

datatype notice =
    Described json
  | WaitForReply
  | NothingToSend
  | GenerationFailed
  | CannotConnect
  | SendFailed
  | NoConversationReturned
  | HistoryFailed

datatype apiCall =
    PostConversations string
  | PostConversationsMessages string string
  | GetConversationsMessages string

text \<open>
  The React state and the refs of \<open>Chat\<close>, with what it does to the outside: the toasts
  shown, the REST calls issued, the event sources opened (numbered in the order of their
  creation, with their conversation id) and closed, the address set with
  \<open>history.replaceState\<close>, and how many ids \<open>generateUUID\<close> has given.
  \<open>messagesVersion\<close> counts the times the \<open>messages\<close> state was given a new array, each
  of which renders the transcript again.
\<close>

record chat_state =
  status :: string
  messages :: "chatMessage list"
  messagesVersion :: nat
  dataStream :: "json list"
  toasts :: "notice list"
  conversationId :: "string option"
  conversationIdRef :: "string option"
  eventSourceRef :: "nat option"
  openedSources :: "(nat \<times> string) list"
  closedSources :: "nat list"
  apiCalls :: "apiCall list"
  location :: "string option"
  uuidsUsed :: nat

definition setMessages ::
  "(chatMessage list \<Rightarrow> chatMessage list update) \<Rightarrow> chat_state \<Rightarrow> chat_state" where
  "setMessages f st =
     (case f (messages st) of
        Same \<Rightarrow> st
      | Fresh ms \<Rightarrow> st\<lparr>messages := ms, messagesVersion := Suc (messagesVersion st)\<rparr>)"

definition updateAssistantMessage :: "(string \<Rightarrow> string option) \<Rightarrow> chat_state \<Rightarrow> chat_state" where
  "updateAssistantMessage updater = setMessages (updateLastAssistantPart ''text'' updater)"

definition updateAssistantReasoning :: "(string \<Rightarrow> string option) \<Rightarrow> chat_state \<Rightarrow> chat_state" where
  "updateAssistantReasoning updater = setMessages (updateLastAssistantPart ''reasoning'' updater)"

definition toast :: "notice \<Rightarrow> chat_state \<Rightarrow> chat_state" where
  "toast n st = st\<lparr>toasts := toasts st @ [n]\<rparr>"

definition setStatus :: "string \<Rightarrow> chat_state \<Rightarrow> chat_state" where
  "setStatus s st = st\<lparr>status := s\<rparr>"

subsection \<open>The event type\<close>

text \<open>\<open>items.join(",")\<close> over strings, \<open>None\<close> when turning an item into a string
  throws.\<close>

fun joinItems :: "string option list \<Rightarrow> string option" where
  "joinItems [] = Some []"
| "joinItems [x] = x"
| "joinItems (x # y # zs) =
     (case x of
        None \<Rightarrow> None
      | Some a \<Rightarrow> (case joinItems (y # zs) of None \<Rightarrow> None | Some b \<Rightarrow> Some (a @ '','' @ b)))"

text \<open>
  The string of a value: \<open>v.toString()\<close> for a value that is not \<open>null\<close> or
  \<open>undefined\<close>, and what \<open>Array.prototype.join\<close> makes of an item (\<open>null\<close> and
  \<open>undefined\<close> give the empty string there). An array is the join of its items. An
  object owning a \<open>toString\<close> property, which no JSON value can make a function, throws
  a \<open>TypeError\<close> (\<open>None\<close>); any other object is \<open>[object Object]\<close>.
\<close>

fun toStringJS :: "json \<Rightarrow> string option" where
  "toStringJS JUndefined = Some []"
| "toStringJS JNull = Some []"
| "toStringJS (JBool b) = Some (if b then ''true'' else ''false'')"
| "toStringJS (JNum n) = Some n"
| "toStringJS (JStr s) = Some s"
| "toStringJS (JArr xs) = joinItems (map toStringJS xs)"
| "toStringJS (JObj fs) =
     (if ''toString'' \<in> set (map fst fs) then None else Some ''[object Object]'')"

text \<open>\<open>(payload.event ?? payload.type ?? "").toString()\<close>\<close>

definition eventType :: "json \<Rightarrow> string option" where
  "eventType payload =
     toStringJS (coalesce (coalesce (getField payload ''event'') (getField payload ''type''))
                   (JStr []))"

definition isStreamEventType :: "string \<Rightarrow> bool" where
  "isStreamEventType t =
     (t = ''on_chat_model_stream'' \<or> t = ''on_llm_stream'' \<or> t = ''on_chat_model_stream_chunk''
      \<or> t = ''text_delta'' \<or> t = ''delta'' \<or> t = ''chunk'')"

subsection \<open>\<open>handleStreamPayload\<close>\<close>

text \<open>How a callback ends: it returns, or it throws, each with the state it leaves.\<close>

datatype 'st outcome = Returned 'st | Threw 'st

fun stateOf :: "'st outcome \<Rightarrow> 'st" where
  "stateOf (Returned st) = st"
| "stateOf (Threw st) = st"

definition appendChunk :: "string option \<Rightarrow> chat_state \<Rightarrow> chat_state" where
  "appendChunk chunk st =
     (case chunk of
        None \<Rightarrow> st
      | Some c \<Rightarrow>
          if length c > 0 then updateAssistantMessage (\<lambda>previous. Some (previous @ c)) st
          else st)"

text \<open>The reasoning delta probed by the streaming branch.\<close>

definition reasoningDelta :: "json \<Rightarrow> json" where
  "reasoningDelta payload =
     coalesce
       (coalesce (path payload [''chunk'', ''reasoning''])
                 (path payload [''data'', ''chunk'', ''reasoning'']))
       (if getField payload ''type'' = JStr ''reasoning-delta'' then getField payload ''delta''
        else JUndefined)"

definition finalReasoning :: "json \<Rightarrow> json" where
  "finalReasoning payload =
     coalesce (path payload [''data'', ''output'', ''reasoning''])
              (path payload [''output'', ''reasoning''])"

definition chainErrorNotice :: "json \<Rightarrow> notice" where
  "chainErrorNotice payload =
     (if nullish (coalesce (path payload [''data'', ''message''])
                           (path payload [''data'', ''error'']))
      then GenerationFailed
      else Described (coalesce (path payload [''data'', ''message''])
                               (path payload [''data'', ''error''])))"

text \<open>
  The only place that can throw is the \<open>toString\<close> call of the event type, after the
  payload has been added to the data stream.
\<close>

definition handleStreamPayload :: "parser \<Rightarrow> json \<Rightarrow> chat_state \<Rightarrow> chat_state outcome" where
  "handleStreamPayload P payload st =
     (if \<not> truthy payload then Returned st
      else
        let st1 = st\<lparr>dataStream := dataStream st @ [payload]\<rparr> in
        (case eventType payload of
           None \<Rightarrow> Threw st1
         | Some evType \<Rightarrow>
             if isStreamEventType evType then
               let delta = extractStreamText P payload;
                   st2 = (if delta \<noteq> None \<and> delta \<noteq> Some [] then appendChunk delta st1 else st1);
                   rDelta = reasoningDelta payload
               in
                 Returned
                   (if isString rDelta \<and> length (strVal rDelta) > 0 then
                      updateAssistantReasoning (\<lambda>previous. Some (previous @ strVal rDelta)) st2
                    else st2)
             else if evType = ''on_chat_model_end'' then
               let finalContent = extractFinalText P payload;
                   st2 = (case finalContent of
                            None \<Rightarrow> st1
                          | Some fc \<Rightarrow>
                              if fc \<noteq> [] then updateAssistantMessage (\<lambda>previous. Some fc) st1
                              else st1);
                   fReasoning = finalReasoning payload
               in
                 Returned
                   (if isString fReasoning \<and> length (strVal fReasoning) > 0 then
                      updateAssistantReasoning (\<lambda>previous. Some (strVal fReasoning)) st2
                    else st2)
             else if evType = ''on_chain_error'' then
               Returned (setStatus ''ready'' (toast (chainErrorNotice payload) st1))
             else Returned st1))"

text \<open>The payloads of a stream, handled one after the other; an exception thrown for
  one of them is caught by the adapter and the next is handled all the same.\<close>

fun handleAll :: "parser \<Rightarrow> json list \<Rightarrow> chat_state \<Rightarrow> chat_state" where
  "handleAll P [] st = st"
| "handleAll P (payload # rest) st = handleAll P rest (stateOf (handleStreamPayload P payload st))"

section \<open>Event stream adapter\<close>

definition DEFAULT_SSE_EVENTS :: "string list" where
  "DEFAULT_SSE_EVENTS =
     [''message'', ''on_chat_model_stream'', ''on_llm_stream'', ''on_chat_model_stream_chunk'',
      ''on_chat_model_start'', ''on_chat_model_end'', ''on_tool_start'', ''on_tool_end'',
      ''on_chain_start'', ''on_chain_end'', ''on_chain_error'']"

text \<open>
  The options of \<open>openConversationStream\<close>, every one of them optional. A callback
  works on the state of its owner, \<open>'st\<close>, and returns or throws.
\<close>

record 'st conversationStreamOptions =
  events :: "string list option"
  onEvent :: "(json \<Rightarrow> string \<Rightarrow> 'st \<Rightarrow> 'st outcome) option"
  onError :: "('st \<Rightarrow> 'st outcome) option"
  onComplete :: "('st \<Rightarrow> 'st outcome) option"
  finalAgents :: "string list option"

definition names :: "'st conversationStreamOptions \<Rightarrow> string list" where
  "names opts = (case events opts of None \<Rightarrow> DEFAULT_SSE_EVENTS | Some ns \<Rightarrow> ns)"

definition final :: "'st conversationStreamOptions \<Rightarrow> string set" where
  "final opts =
     set (case finalAgents opts of
            None \<Rightarrow> [''ReAct Agent'', ''Supervisor Agent'']
          | Some agents \<Rightarrow> agents)"

text \<open>The callbacks the adapter has invoked, in order.\<close>

datatype call = EventCall json string | CompleteCall | ErrorCall

text \<open>\<open>payload?.event === 'on_chain_end' && final.has(payload?.name)\<close>\<close>

definition isGraphEnd :: "'st conversationStreamOptions \<Rightarrow> json \<Rightarrow> bool" where
  "isGraphEnd opts payload =
     (getField payload ''event'' = JStr ''on_chain_end''
      \<and> isString (getField payload ''name'') \<and> strVal (getField payload ''name'') \<in> final opts)"

text \<open>
  The \<open>try\<close> block of \<open>forward\<close>: the parse, the event callback, the test for the end
  of the graph and the completion callback. It throws when the parse or a callback
  does; nothing after the throw is run.
\<close>

definition forwardTry ::
  "parser \<Rightarrow> 'st conversationStreamOptions \<Rightarrow> string \<Rightarrow> string \<Rightarrow> 'st \<Rightarrow> call list \<times> 'st outcome" where
  "forwardTry P opts name d st =
     (case JSON_parse P d of
        None \<Rightarrow> ([], Threw st)
      | Some payload \<Rightarrow>
          (case (case onEvent opts of
                   None \<Rightarrow> ([], Returned st)
                 | Some callback \<Rightarrow> ([EventCall payload name], callback payload name st)) of
             (calls, Threw st1) \<Rightarrow> (calls, Threw st1)
           | (calls, Returned st1) \<Rightarrow>
               if isGraphEnd opts payload then
                 (case onComplete opts of
                    None \<Rightarrow> (calls, Returned st1)
                  | Some callback \<Rightarrow> (calls @ [CompleteCall], callback st1))
               else (calls, Returned st1)))"

text \<open>
  The listener \<open>forward(name)\<close> on a frame whose \<open>data\<close> is \<open>None\<close> when absent. The
  \<open>catch\<close> swallows whatever the \<open>try\<close> block throws.
\<close>

definition forward ::
  "parser \<Rightarrow> 'st conversationStreamOptions \<Rightarrow> string \<Rightarrow> string option \<Rightarrow> 'st \<Rightarrow> call list \<times> 'st outcome" where
  "forward P opts name data st =
     (case data of
        None \<Rightarrow> ([], Returned st)
      | Some d \<Rightarrow>
          if d = [] then ([], Returned st)
          else (case forwardTry P opts name d st of (calls, r) \<Rightarrow> (calls, Returned (stateOf r))))"

text \<open>\<open>source.onerror\<close>: the error callback, outside any \<open>try\<close>.\<close>

definition sourceOnError :: "'st conversationStreamOptions \<Rightarrow> 'st \<Rightarrow> call list \<times> 'st outcome" where
  "sourceOnError opts st =
     (case onError opts of
        None \<Rightarrow> ([], Returned st)
      | Some callback \<Rightarrow> ([ErrorCall], callback st))"

text \<open>
  A frame is the name of its channel and its data. \<open>names.forEach\<close> adds one listener
  for each name of the list, so a frame goes through \<open>forward\<close> once for each
  occurrence of its channel among the names, and is ignored when there is none.
\<close>

fun runListeners ::
  "parser \<Rightarrow> 'st conversationStreamOptions \<Rightarrow> string list \<Rightarrow> string option \<Rightarrow> 'st \<Rightarrow> call list \<times> 'st" where
  "runListeners P opts [] data st = ([], st)"
| "runListeners P opts (name # rest) data st =
     (case forward P opts name data st of
        (calls, r) \<Rightarrow>
          (case runListeners P opts rest data (stateOf r) of
             (calls', st') \<Rightarrow> (calls @ calls', st')))"

definition dispatch ::
  "parser \<Rightarrow> 'st conversationStreamOptions \<Rightarrow> string \<times> string option \<Rightarrow> 'st \<Rightarrow> call list \<times> 'st" where
  "dispatch P opts frame st =
     runListeners P opts (filter (\<lambda>name. name = fst frame) (names opts)) (snd frame) st"

text \<open>The frames of a stream, dispatched in the order of their arrival.\<close>

fun deliver ::
  "parser \<Rightarrow> 'st conversationStreamOptions \<Rightarrow> (string \<times> string option) list \<Rightarrow> 'st \<Rightarrow> call list \<times> 'st" where
  "deliver P opts [] st = ([], st)"
| "deliver P opts (frame # rest) st =
     (case dispatch P opts frame st of
        (calls, st1) \<Rightarrow>
          (case deliver P opts rest st1 of (calls', st') \<Rightarrow> (calls @ calls', st')))"

section \<open>Conversation session controller\<close>

subsection \<open>The environment\<close>

text \<open>
  A thrown value: whether it is an \<open>Error\<close> (\<open>instanceof Error\<close>) and its \<open>message\<close>
  property (\<open>undefined\<close> when it has none).
\<close>

record thrown =
  isError :: bool
  errorMessage :: json

text \<open>
  The responses of the REST client, whose generated types are not part of the sources;
  the fields are those of the specification and of the reads of the code, each of them
  optional as the code takes it.
\<close>

record messageStart =
  ms_user_message_id :: "string option"
  ms_assistant_message_id :: "string option"

record createResponse =
  cr_conversation_id :: "string option"
  cr_message_start :: "messageStart option"
  cr_started :: bool

record appendResponse =
  ar_user_message_id :: "string option"
  ar_assistant_message_id :: "string option"

text \<open>\<open>interface BackendMessage\<close>; the id and the role are optional because the code
  allows for their absence.\<close>

record backendMessage =
  bm_message_id :: "string option"
  bm_role :: "string option"
  bm_content :: "string option"
  bm_created_at :: "string option"
  bm_events :: "json list option"

text \<open>
  What the component gets from outside: the answers of the REST client (a thrown value
  or the response, \<open>None\<close> for a response that is \<open>undefined\<close>), the ids of
  \<open>generateUUID\<close>, the clock, whether \<open>new EventSource\<close> throws for a conversation,
  \<open>new Date(s).toISOString()\<close> (\<open>None\<close> when it throws a \<open>RangeError\<close>), and the
  messages the engine gives its own \<open>TypeError\<close> and \<open>RangeError\<close>.
\<close>

record env =
  postConversations :: "string \<Rightarrow> thrown + createResponse option"
  postConversationsMessages :: "string \<Rightarrow> string \<Rightarrow> thrown + appendResponse option"
  getConversationsMessages :: "string \<Rightarrow> thrown + backendMessage list option"
  uuid :: "nat \<Rightarrow> string"
  now :: string
  eventSourceThrows :: "string \<Rightarrow> bool"
  toISOString :: "string \<Rightarrow> string option"
  typeErrorMessage :: string
  rangeErrorMessage :: string

definition generateUUID :: "env \<Rightarrow> chat_state \<Rightarrow> string \<times> chat_state" where
  "generateUUID e st = (uuid e (uuidsUsed st), st\<lparr>uuidsUsed := Suc (uuidsUsed st)\<rparr>)"

text \<open>Truthiness of a \<open>string | undefined\<close> or \<open>string | null\<close>.\<close>

definition present :: "string option \<Rightarrow> bool" where
  "present s = (case s of None \<Rightarrow> False | Some v \<Rightarrow> v \<noteq> [])"

subsection \<open>The stream\<close>

text \<open>\<open>if (eventSourceRef.current) { eventSourceRef.current.close();
  eventSourceRef.current = null; }\<close>\<close>

definition closeCurrent :: "chat_state \<Rightarrow> chat_state" where
  "closeCurrent st =
     (case eventSourceRef st of
        None \<Rightarrow> st
      | Some source \<Rightarrow> st\<lparr>closedSources := closedSources st @ [source], eventSourceRef := None\<rparr>)"

definition cleanup :: "chat_state \<Rightarrow> chat_state" where
  "cleanup st = setStatus ''ready'' (closeCurrent st)"

text \<open>The options \<open>openStream\<close> passes to \<open>openConversationStream\<close>.\<close>

definition chatOptions :: "parser \<Rightarrow> chat_state conversationStreamOptions" where
  "chatOptions P =
     \<lparr>events = None,
      onEvent = Some (\<lambda>payload name. handleStreamPayload P payload),
      onError = Some (\<lambda>st. Returned (cleanup st)),
      onComplete = Some (\<lambda>st. Returned (cleanup st)),
      finalAgents = None\<rparr>"

definition openStream :: "env \<Rightarrow> string \<Rightarrow> chat_state \<Rightarrow> chat_state" where
  "openStream e cid st =
     (if cid = [] then st
      else
        let st1 = closeCurrent st in
        if eventSourceThrows e cid then toast CannotConnect (setStatus ''ready'' st1)
        else
          setStatus ''streaming''
            (st1\<lparr>openedSources := openedSources st1 @ [(length (openedSources st1), cid)],
                 eventSourceRef := Some (length (openedSources st1))\<rparr>))"

text \<open>
  What the open source of the component does with a frame and with a transport error.
  A source that has been closed delivers nothing, and the component keeps no source but
  the one of \<open>eventSourceRef\<close> open.
\<close>

definition receiveFrame :: "parser \<Rightarrow> string \<times> string option \<Rightarrow> chat_state \<Rightarrow> call list \<times> chat_state" where
  "receiveFrame P frame st =
     (if eventSourceRef st = None then ([], st) else dispatch P (chatOptions P) frame st)"

definition transportError :: "parser \<Rightarrow> chat_state \<Rightarrow> call list \<times> chat_state outcome" where
  "transportError P st =
     (if eventSourceRef st = None then ([], Returned st) else sourceOnError (chatOptions P) st)"

subsection \<open>\<open>loadMessages\<close>\<close>

text \<open>\<open>xs.join(sep)\<close> over strings.\<close>

fun joinWith :: "string \<Rightarrow> string list \<Rightarrow> string" where
  "joinWith sep [] = []"
| "joinWith sep [x] = x"
| "joinWith sep (x # y # zs) = x @ sep @ joinWith sep (y # zs)"

text \<open>
  \<open>event.data?.output?.reasoning ?? ""\<close> for one event of a backend message: reading
  \<open>data\<close> of \<open>null\<close> or \<open>undefined\<close> throws a \<open>TypeError\<close> (\<open>None\<close>).
\<close>

definition eventReasoning :: "json \<Rightarrow> json option" where
  "eventReasoning event =
     (if nullish event then None
      else Some (coalesce (path event [''data'', ''output'', ''reasoning'']) (JStr [])))"

text \<open>The strings of all the values, \<open>None\<close> as soon as one of the steps throws.\<close>

fun allSome :: "'a option list \<Rightarrow> 'a list option" where
  "allSome [] = Some []"
| "allSome (x # xs) =
     (case x of
        None \<Rightarrow> None
      | Some v \<Rightarrow> (case allSome xs of None \<Rightarrow> None | Some vs \<Rightarrow> Some (v # vs)))"

text \<open>\<open>item.events?.map(...).join("\n")\<close>: \<open>Inr JUndefined\<close> without events, the
  joined string otherwise, a \<open>TypeError\<close> when an event or its string throws.\<close>

definition reasoningOf :: "env \<Rightarrow> json list option \<Rightarrow> thrown + json" where
  "reasoningOf e evs =
     (case evs of
        None \<Rightarrow> Inr JUndefined
      | Some es \<Rightarrow>
          (case allSome (map eventReasoning es) of
             None \<Rightarrow> Inl \<lparr>isError = True, errorMessage = JStr (typeErrorMessage e)\<rparr>
           | Some rs \<Rightarrow>
               (case allSome (map toStringJS rs) of
                  None \<Rightarrow> Inl \<lparr>isError = True, errorMessage = JStr (typeErrorMessage e)\<rparr>
                | Some strs \<Rightarrow> Inr (JStr (joinWith [newline] strs)))))"

definition mapBackendMessage ::
  "env \<Rightarrow> backendMessage \<Rightarrow> chat_state \<Rightarrow> (thrown + chatMessage) \<times> chat_state" where
  "mapBackendMessage e item st =
     (let content = (case bm_content item of None \<Rightarrow> [] | Some c \<Rightarrow> c) in
      case reasoningOf e (bm_events item) of
        Inl err \<Rightarrow> (Inl err, st)
      | Inr reasoning \<Rightarrow>
          (case (if present (bm_created_at item) then toISOString e (the (bm_created_at item))
                 else Some (now e)) of
             None \<Rightarrow> (Inl \<lparr>isError = True, errorMessage = JStr (rangeErrorMessage e)\<rparr>, st)
           | Some created \<Rightarrow>
               (case (case bm_message_id item of
                        None \<Rightarrow> generateUUID e st
                      | Some i \<Rightarrow> (i, st)) of
                  (i, st1) \<Rightarrow>
                    (Inr \<lparr>msg_id = i,
                          role = (case bm_role item of None \<Rightarrow> ''assistant'' | Some r \<Rightarrow> r),
                          parts = [JObj [(''type'', JStr ''reasoning''), (''text'', reasoning)],
                                   JObj [(''type'', JStr ''text''), (''text'', JStr content)]],
                          createdAt = created\<rparr>,
                     st1))))"

text \<open>\<open>items.map(mapBackendMessage)\<close>, stopping at the first item that throws.\<close>

fun mapBackendMessages ::
  "env \<Rightarrow> backendMessage list \<Rightarrow> chat_state \<Rightarrow> (thrown + chatMessage list) \<times> chat_state" where
  "mapBackendMessages e [] st = (Inr [], st)"
| "mapBackendMessages e (item # rest) st =
     (case mapBackendMessage e item st of
        (Inl err, st1) \<Rightarrow> (Inl err, st1)
      | (Inr m, st1) \<Rightarrow>
          (case mapBackendMessages e rest st1 of
             (Inl err, st2) \<Rightarrow> (Inl err, st2)
           | (Inr ms, st2) \<Rightarrow> (Inr (m # ms), st2)))"

text \<open>\<open>/HTTP\s+404/.test(s)\<close>: the pattern at the start of \<open>s\<close>, then anywhere.\<close>

definition matchHttp404At :: "string \<Rightarrow> bool" where
  "matchHttp404At s =
     (startsWith s ''HTTP''
      \<and> takeWhile isSpace (drop 4 s) \<noteq> []
      \<and> startsWith (dropWhile isSpace (drop 4 s)) ''404'')"

fun testHttp404 :: "string \<Rightarrow> bool" where
  "testHttp404 [] = False"
| "testHttp404 (c # cs) = (matchHttp404At (c # cs) \<or> testHttp404 cs)"

text \<open>\<open>String(e?.message ?? "")\<close>, \<open>None\<close> when the conversion throws.\<close>

definition messageString :: "thrown \<Rightarrow> string option" where
  "messageString err = toStringJS (coalesce (errorMessage err) (JStr []))"

text \<open>The description of the toast of a \<open>catch\<close>:
  \<open>error instanceof Error ? error.message : fallback\<close>.\<close>

definition describe :: "notice \<Rightarrow> thrown \<Rightarrow> notice" where
  "describe fallback err = (if isError err then Described (errorMessage err) else fallback)"

text \<open>\<open>setMessages(value)\<close> with a new array.\<close>

definition setMessagesTo :: "chatMessage list \<Rightarrow> chat_state \<Rightarrow> chat_state" where
  "setMessagesTo ms = setMessages (\<lambda>prev. Fresh ms)"

text \<open>
  The inner \<open>try\<close> gets the answer of the client and maps its items; the inner \<open>catch\<close>
  empties the transcript for an error that tests as not found and throws every other
  one again, to the outer \<open>catch\<close>, which shows it.
\<close>

definition loadMessages :: "env \<Rightarrow> string \<Rightarrow> chat_state \<Rightarrow> chat_state" where
  "loadMessages e targetConversationId st =
     (if targetConversationId = [] then st
      else
        let st1 = st\<lparr>apiCalls := apiCalls st @ [GetConversationsMessages targetConversationId]\<rparr> in
        (case (case getConversationsMessages e targetConversationId of
                 Inl err \<Rightarrow> (Inl err, st1)
               | Inr data \<Rightarrow>
                   mapBackendMessages e (case data of None \<Rightarrow> [] | Some items \<Rightarrow> items) st1) of
           (Inr history, st2) \<Rightarrow> setMessagesTo history st2
         | (Inl err, st2) \<Rightarrow>
             (case messageString err of
                None \<Rightarrow>
                  toast (Described (JStr (typeErrorMessage e))) st2
              | Some msg \<Rightarrow>
                  if testHttp404 msg then setMessagesTo [] st2
                  else toast (describe HistoryFailed err) st2)))"

subsection \<open>\<open>sendMessage\<close> and \<open>stop\<close>\<close>

text \<open>The content sent: the texts of the text parts, joined by line feeds and
  trimmed.\<close>

definition isTextPart :: "json \<Rightarrow> bool" where
  "isTextPart part = (getField part ''type'' = JStr ''text'' \<and> isString (getField part ''text''))"

definition messageContent :: "json list \<Rightarrow> string" where
  "messageContent ps =
     trim (joinWith [newline] (map (\<lambda>part. strVal (getField part ''text'')) (filter isTextPart ps)))"

definition appendUserAndAssistant ::
  "env \<Rightarrow> json list \<Rightarrow> string \<Rightarrow> string option \<Rightarrow> chat_state \<Rightarrow> chat_state" where
  "appendUserAndAssistant e messageParts userMessageId assistantMessageId st =
     (case (if userMessageId \<noteq> [] then (userMessageId, st) else generateUUID e st) of
        (i, st1) \<Rightarrow>
          let st2 = setMessages
                      (\<lambda>prev. Fresh (prev @ [\<lparr>msg_id = i, role = ''user'', parts = messageParts,
                                                createdAt = now e\<rparr>])) st1
          in
            if present assistantMessageId then
              setMessages
                (\<lambda>prev. Fresh (prev @ [\<lparr>msg_id = the assistantMessageId, role = ''assistant'',
                                          parts = [JObj [(''type'', JStr ''text''), (''text'', JStr [])]],
                                          createdAt = now e\<rparr>])) st2
            else st2)"

text \<open>The \<open>catch\<close> of \<open>sendMessage\<close>.\<close>

definition sendFailed :: "notice \<Rightarrow> chat_state \<Rightarrow> chat_state" where
  "sendFailed n st = toast n (setStatus ''ready'' st)"

definition startConversation :: "env \<Rightarrow> json list \<Rightarrow> string \<Rightarrow> chat_state \<Rightarrow> chat_state" where
  "startConversation e messageParts content st =
     (let st1 = st\<lparr>apiCalls := apiCalls st @ [PostConversations content]\<rparr> in
      case postConversations e content of
        Inl err \<Rightarrow> sendFailed (describe SendFailed err) st1
      | Inr data \<Rightarrow>
          let newConversationId = (case data of None \<Rightarrow> None | Some d \<Rightarrow> cr_conversation_id d) in
          if \<not> present newConversationId then sendFailed NoConversationReturned st1
          else
            let st2 = st1\<lparr>conversationIdRef := newConversationId,
                          conversationId := newConversationId,
                          location := Some (''/chat/'' @ the newConversationId)\<rparr>;
                start = (case data of None \<Rightarrow> None | Some d \<Rightarrow> cr_message_start d);
                assistantMessageId =
                  (case start of None \<Rightarrow> None | Some ms \<Rightarrow> ms_assistant_message_id ms)
            in
              (case (case (case start of None \<Rightarrow> None | Some ms \<Rightarrow> ms_user_message_id ms) of
                       None \<Rightarrow> generateUUID e st2
                     | Some u \<Rightarrow> (u, st2)) of
                 (userMessageId, st3) \<Rightarrow>
                   let st4 = appendUserAndAssistant e messageParts userMessageId assistantMessageId st3
                   in
                     if (case data of None \<Rightarrow> False | Some d \<Rightarrow> cr_started d)
                        \<and> present assistantMessageId then
                       openStream e (the newConversationId) st4
                     else setStatus ''ready'' st4))"

definition continueConversation ::
  "env \<Rightarrow> json list \<Rightarrow> string \<Rightarrow> string \<Rightarrow> chat_state \<Rightarrow> chat_state" where
  "continueConversation e messageParts activeConversationId content st =
     (let st1 = st\<lparr>apiCalls := apiCalls st
                       @ [PostConversationsMessages activeConversationId content]\<rparr> in
      case postConversationsMessages e activeConversationId content of
        Inl err \<Rightarrow> sendFailed (describe SendFailed err) st1
      | Inr data \<Rightarrow>
          let assistantMessageId =
                (case data of None \<Rightarrow> None | Some d \<Rightarrow> ar_assistant_message_id d)
          in
            (case (case (case data of None \<Rightarrow> None | Some d \<Rightarrow> ar_user_message_id d) of
                     None \<Rightarrow> generateUUID e st1
                   | Some u \<Rightarrow> (u, st1)) of
               (userMessageId, st2) \<Rightarrow>
                 let st3 = appendUserAndAssistant e messageParts userMessageId assistantMessageId st2
                 in
                   if present assistantMessageId then openStream e activeConversationId st3
                   else setStatus ''ready'' st3))"

definition sendMessage :: "env \<Rightarrow> json list \<Rightarrow> chat_state \<Rightarrow> chat_state" where
  "sendMessage e messageParts st =
     (if status st \<noteq> ''ready'' then toast WaitForReply st
      else
        let content = messageContent messageParts in
        if content = [] then toast NothingToSend st
        else
          let st1 = (setStatus ''submitted'' st)\<lparr>dataStream := []\<rparr> in
          if \<not> present (conversationIdRef st1) then startConversation e messageParts content st1
          else
            continueConversation e messageParts (the (conversationIdRef st1)) content st1)"

definition stop :: "env \<Rightarrow> chat_state \<Rightarrow> chat_state" where
  "stop e st =
     (let st1 = setStatus ''ready'' (closeCurrent st) in
      if present (conversationIdRef st1) then loadMessages e (the (conversationIdRef st1)) st1
      else st1)"

section \<open>A sample session\<close>

text \<open>Concrete values on which the properties below are run.\<close>

text \<open>The user turn of the first scenario of the specification.\<close>

definition sampleUser :: chatMessage where
  "sampleUser =
     \<lparr>msg_id = ''u1'', role = ''user'',
      parts = [JObj [(''type'', JStr ''text''), (''text'', JStr ''buy 1 ETH'')]],
      createdAt = ''2025-01-01T00:00:00.000Z''\<rparr>"

text \<open>The empty assistant turn that follows it.\<close>

definition samplePlaceholder :: chatMessage where
  "samplePlaceholder =
     \<lparr>msg_id = ''a1'', role = ''assistant'',
      parts = [JObj [(''type'', JStr ''text''), (''text'', JStr [])]],
      createdAt = ''2025-01-01T00:00:00.000Z''\<rparr>"

text \<open>The state of a new chat.\<close>

definition sampleReady :: chat_state where
  "sampleReady =
     \<lparr>status = ''ready'', messages = [], messagesVersion = 0, dataStream = [], toasts = [],
      conversationId = None, conversationIdRef = None, eventSourceRef = None,
      openedSources = [], closedSources = [], apiCalls = [], location = None, uuidsUsed = 0\<rparr>"

text \<open>The state after the first message has been sent and its stream
  opened.\<close>

definition sampleStreaming :: chat_state where
  "sampleStreaming =
     \<lparr>status = ''streaming'', messages = [sampleUser, samplePlaceholder], messagesVersion = 2,
      dataStream = [], toasts = [], conversationId = Some ''c1'', conversationIdRef = Some ''c1'',
      eventSourceRef = Some 0, openedSources = [(0, ''c1'')], closedSources = [],
      apiCalls = [PostConversations ''buy 1 ETH''], location = Some ''/chat/c1'',
      uuidsUsed = 0\<rparr>"

text \<open>A state whose last turn is the user turn.\<close>

definition sampleSubmitted :: chat_state where
  "sampleSubmitted = sampleStreaming\<lparr>status := ''submitted'', messages := [sampleUser]\<rparr>"

text \<open>A streaming delta event with the given content.\<close>

definition streamPayload :: "string \<Rightarrow> json" where
  "streamPayload content =
     JObj [(''event'', JStr ''on_chat_model_stream''), (''chunk'', JObj [(''content'', JStr content)])]"

text \<open>The terminal event of the third scenario.\<close>

definition finalPayload :: json where
  "finalPayload =
     JObj [(''event'', JStr ''on_chat_model_end''),
           (''data'', JObj [(''output'',
              JObj [(''content'', JStr ''Final answer''), (''reasoning'', JStr ''because...'')])])]"

text \<open>A streaming delta event with an empty content and a reasoning delta.\<close>

definition reasoningOnlyPayload :: json where
  "reasoningOnlyPayload =
     JObj [(''event'', JStr ''on_chat_model_stream''),
           (''chunk'', JObj [(''content'', JStr []), (''reasoning'', JStr ''because'')])]"

text \<open>A streaming delta event with an empty content and nothing else.\<close>

definition emptyDeltaPayload :: json where
  "emptyDeltaPayload =
     JObj [(''event'', JStr ''on_chat_model_stream''), (''chunk'', JObj [(''content'', JStr [])])]"

text \<open>A string between double quotes, for writing JSON texts.\<close>

definition quoted :: "string \<Rightarrow> string" where
  "quoted s = dquote # s @ [dquote]"

text \<open>The completion signal of a final agent, and its JSON text.\<close>

definition graphEnd :: json where
  "graphEnd = JObj [(''event'', JStr ''on_chain_end''), (''name'', JStr ''ReAct Agent'')]"

definition graphEndText :: string where
  "graphEndText =
     ''{'' @ quoted ''event'' @ '':'' @ quoted ''on_chain_end'' @ '','' @ quoted ''name'' @ '':''
       @ quoted ''ReAct Agent'' @ ''}''"

text \<open>The JSON text of \<open>streamPayload ''Hel''\<close>.\<close>

definition helloText :: string where
  "helloText =
     ''{'' @ quoted ''event'' @ '':'' @ quoted ''on_chat_model_stream'' @ '','' @ quoted ''chunk''
       @ '':{'' @ quoted ''content'' @ '':'' @ quoted ''Hel'' @ ''}}''"

text \<open>A parser that knows these two texts and rejects every other one.\<close>

definition sampleParser :: parser where
  "sampleParser = tableParser [(graphEndText, graphEnd), (helloText, streamPayload ''Hel'')]"

text \<open>Message parts whose text is white space only.\<close>

definition blankParts :: "json list" where
  "blankParts =
     [JObj [(''type'', JStr ''text''), (''text'', JStr ''  '')],
      JObj [(''type'', JStr ''file''), (''url'', JStr ''x'')],
      JObj [(''type'', JStr ''text''), (''text'', JStr [tab])]]"

text \<open>An environment: the backend starts a generation for every message, has no
  history for the conversation \<open>missing\<close> and fails for the conversation
  \<open>down\<close>.\<close>

definition sampleEnv :: env where
  "sampleEnv =
     \<lparr>postConversations =
        (\<lambda>content. Inr (Some \<lparr>cr_conversation_id = Some ''c1'',
                                cr_message_start =
                                  Some \<lparr>ms_user_message_id = Some ''u1'',
                                        ms_assistant_message_id = Some ''a1''\<rparr>,
                                cr_started = True\<rparr>)),
      postConversationsMessages =
        (\<lambda>cid content. Inr (Some \<lparr>ar_user_message_id = Some ''u2'',
                                    ar_assistant_message_id = Some ''a2''\<rparr>)),
      getConversationsMessages =
        (\<lambda>cid. if cid = ''missing'' then
                  Inl \<lparr>isError = True, errorMessage = JStr ''HTTP 404 Not Found''\<rparr>
                else if cid = ''down'' then
                  Inl \<lparr>isError = True, errorMessage = JStr ''HTTP 500 Internal Server Error''\<rparr>
                else Inr (Some [])),
      uuid = (\<lambda>n. ''uuid-'' @ replicate n (CHR ''x'')),
      now = ''2025-01-01T00:00:00.000Z'',
      eventSourceThrows = (\<lambda>cid. False),
      toISOString = Some,
      typeErrorMessage = ''x is not a function'',
      rangeErrorMessage = ''Invalid time value''\<rparr>"

text \<open>An event callback that throws on every payload, on a state with nothing in it.\<close>

definition throwingOptions :: "unit conversationStreamOptions" where
  "throwingOptions =
     \<lparr>events = None,
      onEvent = Some (\<lambda>payload name st. Threw st),
      onError = None,
      onComplete = Some (\<lambda>st. Returned st),
      finalAgents = None\<rparr>"

section \<open>Properties of the payload normalizer\<close>

lemma JSON_parse_tableParser:
  "JSON_parse (tableParser tbl) s =
     (case map_of tbl s of
        None \<Rightarrow> None
      | Some v \<Rightarrow> if jsize v \<le> length s then Some v else None)"
  by (simp add: tableParser_def JSON_parse_def Abs_parser_inverse split: option.splits)

lemmas string_evals =
  squote_def dquote_def backslash_def newline_def tab_def isSpace_def trim_def
  startsWith_def normalizeEscapes_def textKey_def contentKey_def matchTextAt_def
  matchContentAt_def extractTextFromPythonLiteral_def looksLikeJson_def partText_def

text \<open>
  Claim C3, as stated: \<open>ensureString\<close> never returns the empty string. It does: the
  empty string is neither JSON nor a Python literal, and \<open>normalizeEscapes\<close> gives it
  back as it is; and the \<open>text\<close> of an object is returned as it is, empty or not.
\<close>

theorem ensureString_empty_string_input:
  "ensureString (tableParser []) (JStr []) = Some []
   \<and> ensureString (tableParser []) (JObj [(''text'', JStr [])]) = Some []"
  by (simp add: string_evals)

text \<open>The JSON branch of the string case returns: the trimmed string looks like JSON,
  parses, and the parsed value normalizes to a non-empty text.\<close>

definition parsesToText :: "parser \<Rightarrow> string \<Rightarrow> bool" where
  "parsesToText P s =
     (looksLikeJson (trim s)
      \<and> (case JSON_parse P (trim s) of None \<Rightarrow> False | Some parsed \<Rightarrow> normalizesToText P parsed))"

text \<open>The string has \<open>'text': '...'\<close> fragments and every one of them is empty.\<close>

definition emptyFragments :: "string \<Rightarrow> bool" where
  "emptyFragments s = (matchAllText s \<noteq> [] \<and> concat (matchAllText s) = [])"

text \<open>The value an object without a string \<open>text\<close> hands to the recursion, in the
  order of the tests of the object case: its \<open>content\<close> (array or string), its array
  \<open>delta\<close>, the truthy \<open>delta\<close> or else the truthy \<open>message\<close> of its first choice;
  \<open>None\<close> when there is none and the result is \<open>null\<close>.\<close>

definition delegate :: "json \<Rightarrow> json option" where
  "delegate obj =
     (if isArray (getField obj ''content'') \<or> isString (getField obj ''content'') then
        Some (getField obj ''content'')
      else if isArray (getField obj ''delta'') then Some (getField obj ''delta'')
      else if isArray (getField obj ''choices'') \<and> elems (getField obj ''choices'') \<noteq> [] then
        (if truthy (getField (hd (elems (getField obj ''choices''))) ''delta'') then
           Some (getField (hd (elems (getField obj ''choices''))) ''delta'')
         else if truthy (getField (hd (elems (getField obj ''choices''))) ''message'') then
           Some (getField (hd (elems (getField obj ''choices''))) ''message'')
         else None)
      else None)"

lemma replaceEscape_Nil_iff: "replaceEscape l r xs = [] \<longleftrightarrow> xs = []"
  by (induction l r xs rule: replaceEscape.induct) auto

lemma normalizeEscapes_Nil_iff: "normalizeEscapes xs = [] \<longleftrightarrow> xs = []"
  by (simp add: normalizeEscapes_def replaceEscape_Nil_iff)

lemma matchContent_nonempty: "matchContent s = Some cap \<Longrightarrow> cap \<noteq> []"
  by (induction s) (auto simp: matchContentAt_def Let_def split: option.splits if_splits)

lemma extract_empty_iff: "extractTextFromPythonLiteral s = Some [] \<longleftrightarrow> emptyFragments s"
  by (auto simp: extractTextFromPythonLiteral_def emptyFragments_def Let_def
      normalizeEscapes_Nil_iff split: option.splits dest: matchContent_nonempty)

lemma extract_Nil: "extractTextFromPythonLiteral [] = None"
  by (simp add: extractTextFromPythonLiteral_def)

lemma not_emptyFragments_Nil: "\<not> emptyFragments []"
  by (simp add: emptyFragments_def)

lemma ensureString_JStr:
  "ensureString P (JStr s) =
     (if parsesToText P s then ensureString P (the (JSON_parse P (trim s)))
      else (case extractTextFromPythonLiteral s of
              Some lit \<Rightarrow> Some lit
            | None \<Rightarrow> Some (normalizeEscapes s)))"
  by (auto simp: parsesToText_def normalizesToText_def split: option.splits)

lemma parsesToText_nonempty:
  "parsesToText P s \<Longrightarrow> \<exists>t. ensureString P (the (JSON_parse P (trim s))) = Some t \<and> t \<noteq> []"
  by (auto simp: parsesToText_def normalizesToText_def split: option.splits)

lemma ensureString_JStr_empty_iff:
  "ensureString P (JStr s) = Some [] \<longleftrightarrow> \<not> parsesToText P s \<and> (s = [] \<or> emptyFragments s)"
proof (cases "parsesToText P s")
  case True
  with parsesToText_nonempty [OF True] show ?thesis
    by (auto simp: ensureString_JStr simp del: ensureString.simps)
next
  case False
  show ?thesis
  proof (cases "extractTextFromPythonLiteral s")
    case None
    then have "\<not> emptyFragments s"
      using extract_empty_iff [of s] by simp
    with None False show ?thesis
      by (simp add: ensureString_JStr normalizeEscapes_Nil_iff del: ensureString.simps)
  next
    case (Some lit)
    then have "s \<noteq> []" using extract_Nil by auto
    with Some False extract_empty_iff [of s] show ?thesis
      by (auto simp: ensureString_JStr simp del: ensureString.simps)
  qed
qed

lemma ensureString_JStr_not_None: "ensureString P (JStr s) \<noteq> None"
proof (cases "parsesToText P s")
  case True
  with parsesToText_nonempty [OF True] show ?thesis
    by (auto simp: ensureString_JStr simp del: ensureString.simps)
next
  case False
  then show ?thesis
    by (simp add: ensureString_JStr del: ensureString.simps split: option.splits)
qed

lemma ensureString_array_nonempty: "isArray d \<Longrightarrow> ensureString P d \<noteq> Some []"
  by (cases d) simp_all

lemma ensureString_JObj:
  "ensureString P (JObj fs) =
     (if isString (getField (JObj fs) ''text'') then Some (strVal (getField (JObj fs) ''text''))
      else (case delegate (JObj fs) of None \<Rightarrow> None | Some d \<Rightarrow> ensureString P d))"
  by (simp add: delegate_def del: getField.simps)

lemma ensureString_JObj_empty_iff:
  "ensureString P (JObj fs) = Some [] \<longleftrightarrow>
     getField (JObj fs) ''text'' = JStr []
     \<or> (\<not> isString (getField (JObj fs) ''text'')
        \<and> (case delegate (JObj fs) of None \<Rightarrow> False | Some d \<Rightarrow> ensureString P d = Some []))"
proof (cases "getField (JObj fs) ''text''")
  case (JStr t)
  then show ?thesis
    by (simp add: ensureString_JObj del: ensureString.simps getField.simps)
qed (simp_all add: ensureString_JObj del: ensureString.simps getField.simps split: option.splits)

text \<open>
  Claim C3, amended: \<open>ensureString\<close> is a total function (its recursion terminates,
  by the termination proof above, and it has no error result) that returns a string or
  \<open>null\<close>, and it returns the empty string in exactly these cases. For a string
  (which never gives \<open>null\<close>): the JSON branch does not return, and the string is
  empty or has \<open>'text': '...'\<close> fragments that are all empty. For a non-array object:
  its \<open>text\<close> is the empty string, or its \<open>text\<close> is not a string and the value
  it hands to the recursion normalizes to the empty string. For every other value, the
  arrays among them, the result is a non-empty string or \<open>null\<close>.
\<close>

theorem ensureString_empty_exactly:
  "(\<not> isString v \<longrightarrow> \<not> isObject v \<longrightarrow> nonEmptyOrNull (ensureString P v))
   \<and> ensureString P (JStr s) \<noteq> None
   \<and> (ensureString P (JStr s) = Some []) = (\<not> parsesToText P s \<and> (s = [] \<or> emptyFragments s))
   \<and> (ensureString P (JObj fs) = Some [])
       = (getField (JObj fs) ''text'' = JStr []
          \<or> (\<not> isString (getField (JObj fs) ''text'')
             \<and> (case delegate (JObj fs) of
                   None \<Rightarrow> False
                 | Some d \<Rightarrow> ensureString P d = Some [])))"
proof -
  have a: "\<not> isString v \<longrightarrow> \<not> isObject v \<longrightarrow> nonEmptyOrNull (ensureString P v)"
    by (cases v) (simp_all add: nonEmptyOrNull_def Suc_le_eq)
  from a ensureString_JStr_not_None ensureString_JStr_empty_iff ensureString_JObj_empty_iff
  show ?thesis
    by (intro conjI)
qed

theorem ensureString_empty_exactly_witness:
  "\<not> isString (JArr [JStr ''ab'', JObj [(''text'', JStr ''c'')], JNull])
   \<and> \<not> isObject (JArr [JStr ''ab'', JObj [(''text'', JStr ''c'')], JNull])
   \<and> ensureString (tableParser []) (JArr [JStr ''ab'', JObj [(''text'', JStr ''c'')], JNull])
       = Some ''abc''
   \<and> nonEmptyOrNull
        (ensureString (tableParser []) (JArr [JStr ''ab'', JObj [(''text'', JStr ''c'')], JNull]))
   \<and> \<not> parsesToText (tableParser []) ''hi'' \<and> \<not> emptyFragments ''hi''
   \<and> ensureString (tableParser []) (JStr ''hi'') = Some ''hi''
   \<and> ensureString (tableParser []) (JStr ''hi'') \<noteq> Some []
   \<and> delegate (JObj [(''content'', JStr [])]) = Some (JStr [])
   \<and> ensureString (tableParser []) (JObj [(''content'', JStr [])]) = Some []
   \<and> delegate (JObj [(''content'', JStr ''hi'')]) = Some (JStr ''hi'')
   \<and> ensureString (tableParser []) (JObj [(''content'', JStr ''hi'')]) \<noteq> Some []"
proof -
  have p: "\<not> parsesToText (tableParser []) ''hi''"
    by (simp add: parsesToText_def string_evals)
  have f: "\<not> emptyFragments ''hi''"
    by (simp add: emptyFragments_def string_evals)
  have h: "ensureString (tableParser []) (JStr ''hi'') = Some ''hi''"
    by (simp add: string_evals)
  have a: "ensureString (tableParser []) (JArr [JStr ''ab'', JObj [(''text'', JStr ''c'')], JNull])
       = Some ''abc''"
    by (simp add: partText_def)
  have d1: "delegate (JObj [(''content'', JStr [])]) = Some (JStr [])"
    by (simp add: delegate_def)
  have d2: "delegate (JObj [(''content'', JStr ''hi'')]) = Some (JStr ''hi'')"
    by (simp add: delegate_def)
  have t: "getField (JObj [(''content'', JStr [])]) ''text'' = JUndefined"
    "getField (JObj [(''content'', JStr ''hi'')]) ''text'' = JUndefined"
    by simp_all
  have e: "ensureString (tableParser []) (JStr []) = Some []"
    by (simp add: string_evals)
  from ensureString_empty_exactly
         [of "JArr [JStr ''ab'', JObj [(''text'', JStr ''c'')], JNull]" "tableParser []" "''hi''"
             "[(''content'', JStr [])]"]
       ensureString_empty_exactly
         [of "JArr [JStr ''ab'', JObj [(''text'', JStr ''c'')], JNull]" "tableParser []" "''hi''"
             "[(''content'', JStr ''hi'')]"]
       p f h a d1 d2 t e
  show ?thesis
    by (simp del: ensureString.simps getField.simps)
qed

lemma firstText_firstNormalized: "firstText P cs = firstNormalized P cs"
  by (induction cs) (auto simp: firstNormalized_def normalizesToText_def split: option.splits)

lemma nonEmptyOrNull_firstText: "nonEmptyOrNull (firstText P cs)"
  by (induction cs) (auto simp: nonEmptyOrNull_def Suc_le_eq split: option.splits)

lemma getField_falsy: "\<not> truthy payload \<Longrightarrow> getField payload k = JUndefined"
  by (cases payload) simp_all

lemma path_falsy:
  assumes "\<not> truthy payload" and "ks \<noteq> []"
  shows "path payload ks = JUndefined"
proof -
  have u: "foldl getField JUndefined ks' = JUndefined" for ks'
    by (induction ks') simp_all
  from assms show ?thesis
    by (cases ks) (simp_all add: path_def getField_falsy u)
qed

lemma firstNormalized_undefined:
  "\<forall>c \<in> set cs. c = JUndefined \<Longrightarrow> firstNormalized P cs = None"
  by (induction cs) (auto simp: firstNormalized_def normalizesToText_def)

text \<open>
  Claim C10: for every payload, \<open>null\<close> and \<open>undefined\<close> included,
  \<open>extractStreamText\<close> and \<open>extractFinalText\<close> return (they are total functions
  with no error result) \<open>null\<close> or a string of length at least 1, namely the text of the
  first candidate of their ranked list that normalizes to a non-empty text.
\<close>

theorem extract_text_first_candidate:
  "extractStreamText P payload = firstNormalized P (streamCandidates payload)
   \<and> extractFinalText P payload = firstNormalized P (finalCandidates payload)
   \<and> nonEmptyOrNull (extractStreamText P payload)
   \<and> nonEmptyOrNull (extractFinalText P payload)"
proof (cases "truthy payload")
  case True
  then show ?thesis
    by (simp add: extractStreamText_def extractFinalText_def
        firstText_firstNormalized [symmetric] nonEmptyOrNull_firstText)
next
  case False
  then have "firstNormalized P (streamCandidates payload) = None"
    and "firstNormalized P (finalCandidates payload) = None"
    by (simp_all add: firstNormalized_undefined streamCandidates_def finalCandidates_def
        path_falsy)
  with False show ?thesis
    by (simp add: extractStreamText_def extractFinalText_def nonEmptyOrNull_def)
qed

text \<open>The precedence example of the specification: the \<open>chunk\<close> is ranked before
  the \<open>data\<close>.\<close>

lemma extractStreamText_precedence:
  "extractStreamText P
     (JObj [(''chunk'', JObj [(''content'', JStr ''A'')]),
            (''data'', JObj [(''content'', JStr ''B'')])]) = Some ''A''"
  by (simp add: extractStreamText_def streamCandidates_def path_def string_evals)

section \<open>Properties of the transcript aggregator\<close>

text \<open>The transcript is not empty and its last turn is an assistant turn.\<close>

definition lastIsAssistant :: "chatMessage list \<Rightarrow> bool" where
  "lastIsAssistant ms = (ms \<noteq> [] \<and> role (last ms) = ''assistant'')"

text \<open>The text of a part of the last turn, read as
  \<open>updateLastAssistantPart\<close> reads it.\<close>

definition lastText :: "string \<Rightarrow> chatMessage list \<Rightarrow> string" where
  "lastText partType ms = previousTextOf partType (parts (last ms))"

text \<open>The array React holds after an updater has run on the array
  \<open>old\<close>.\<close>

definition applied :: "'a update \<Rightarrow> 'a \<Rightarrow> 'a" where
  "applied u old = (case u of Same \<Rightarrow> old | Fresh new \<Rightarrow> new)"

lemma findIndex_SomeD:
  "findIndex p xs = Some i \<Longrightarrow> i < length xs \<and> p (xs ! i) \<and> (\<forall>j<i. \<not> p (xs ! j))"
proof (induction xs arbitrary: i)
  case Nil
  then show ?case by simp
next
  case (Cons x xs)
  show ?case
  proof (cases "p x")
    case True
    with Cons.prems show ?thesis by simp
  next
    case False
    with Cons.prems obtain k where k: "findIndex p xs = Some k" "i = Suc k"
      by auto
    from Cons.IH [OF k(1)] False k(2) show ?thesis
      by (auto simp: nth_Cons split: nat.splits)
  qed
qed

lemma findIndex_map_cong: "map p xs = map q ys \<Longrightarrow> findIndex p xs = findIndex q ys"
proof (induction xs arbitrary: ys)
  case Nil
  then show ?case by simp
next
  case (Cons x xs)
  then obtain y ys' where "ys = y # ys'" "p x = q y" "map p xs = map q ys'"
    by (cases ys) auto
  with Cons.IH [of ys'] show ?case by simp
qed

lemma findIndex_append_found:
  "findIndex p xs = Some i \<Longrightarrow> findIndex p (xs @ ys) = Some i"
  by (induction xs arbitrary: i) (auto split: if_splits)

lemma findIndex_append_not_found:
  "findIndex p xs = None \<Longrightarrow> findIndex p (xs @ [y]) = (if p y then Some (length xs) else None)"
  by (induction xs) (auto split: if_splits)

lemma map_of_updateAssoc: "map_of (updateAssoc k v fs) = (map_of fs)(k \<mapsto> v)"
  by (induction fs) (auto simp: fun_eq_iff)

lemma getField_withTypeAndText_type [simp]:
  "getField (withTypeAndText part partType t) ''type'' = JStr partType"
  by (simp add: withTypeAndText_def map_of_updateAssoc)

lemma getField_withTypeAndText_text [simp]:
  "getField (withTypeAndText part partType t) ''text'' = JStr t"
  by (simp add: withTypeAndText_def map_of_updateAssoc)

lemma nextPartsOf_found:
  "findIndex (hasType partType) ps = Some idx \<Longrightarrow>
   nextPartsOf partType t ps = ps[idx := withTypeAndText (ps ! idx) partType t]"
  by (auto simp: nextPartsOf_def upd_conv_take_nth_drop dest: findIndex_SomeD)

lemma previousTextOf_nextPartsOf_same:
  "previousTextOf partType (nextPartsOf partType t ps) = t"
proof (cases "findIndex (hasType partType) ps")
  case None
  then show ?thesis
    by (simp add: nextPartsOf_def previousTextOf_def findIndex_append_not_found hasType_def)
next
  case (Some idx)
  then have idx: "idx < length ps" "hasType partType (ps ! idx)"
    using findIndex_SomeD by blast+
  have "map (hasType partType) (ps[idx := withTypeAndText (ps ! idx) partType t])
        = map (hasType partType) ps"
    using idx by (simp add: map_update hasType_def list_update_same_conv)
  then have "findIndex (hasType partType) (ps[idx := withTypeAndText (ps ! idx) partType t])
        = Some idx"
    using Some findIndex_map_cong by metis
  with Some idx show ?thesis
    by (simp add: nextPartsOf_found previousTextOf_def)
qed

lemma previousTextOf_nextPartsOf_other:
  assumes "other \<noteq> partType"
  shows "previousTextOf other (nextPartsOf partType t ps) = previousTextOf other ps"
proof (cases "findIndex (hasType partType) ps")
  case None
  have new: "\<not> hasType other (JObj [(''type'', JStr partType), (''text'', JStr t)])"
    using assms by (simp add: hasType_def)
  show ?thesis
  proof (cases "findIndex (hasType other) ps")
    case n: None
    with None new show ?thesis
      by (simp add: nextPartsOf_def previousTextOf_def findIndex_append_not_found)
  next
    case s: (Some j)
    then have "j < length ps" using findIndex_SomeD by blast
    with None s show ?thesis
      by (simp add: nextPartsOf_def previousTextOf_def findIndex_append_found nth_append)
  qed
next
  case (Some idx)
  then have idx: "idx < length ps" "hasType partType (ps ! idx)"
    using findIndex_SomeD by blast+
  let ?ps' = "ps[idx := withTypeAndText (ps ! idx) partType t]"
  have notother: "\<not> hasType other (ps ! idx)"
    using idx(2) assms by (simp add: hasType_def)
  have "map (hasType other) ?ps' = map (hasType other) ps"
    using idx assms by (simp add: map_update hasType_def list_update_same_conv)
  then have fi: "findIndex (hasType other) ?ps' = findIndex (hasType other) ps"
    by (rule findIndex_map_cong)
  show ?thesis
  proof (cases "findIndex (hasType other) ps")
    case None
    with fi Some show ?thesis
      by (simp add: nextPartsOf_found previousTextOf_def)
  next
    case s: (Some j)
    then have "hasType other (ps ! j)" using findIndex_SomeD by blast
    with notother have "j \<noteq> idx" by auto
    with fi Some s show ?thesis
      by (simp add: nextPartsOf_found previousTextOf_def)
  qed
qed

lemma updateLastAssistantPart_frame:
  "length (applied (updateLastAssistantPart partType updater ms) ms) = length ms
   \<and> butlast (applied (updateLastAssistantPart partType updater ms) ms) = butlast ms"
  by (auto simp: updateLastAssistantPart_def applied_def Let_def butlast_list_update
      split: option.splits)

lemma updateLastAssistantPart_noop:
  "\<not> lastIsAssistant ms \<Longrightarrow> updateLastAssistantPart partType updater ms = Same"
  by (auto simp: updateLastAssistantPart_def lastIsAssistant_def Let_def last_conv_nth)

lemma updateLastAssistantPart_keeps_assistant:
  "lastIsAssistant ms \<Longrightarrow> lastIsAssistant (applied (updateLastAssistantPart partType updater ms) ms)"
  by (auto simp: updateLastAssistantPart_def lastIsAssistant_def applied_def Let_def
      last_conv_nth split: option.splits)

lemma updateLastAssistantPart_text:
  assumes "lastIsAssistant ms" and "updater (lastText partType ms) = Some t"
  shows "lastText partType (applied (updateLastAssistantPart partType updater ms) ms) = t"
  using assms
  by (auto simp: updateLastAssistantPart_def lastIsAssistant_def lastText_def applied_def Let_def
      last_conv_nth previousTextOf_nextPartsOf_same split: option.splits)

lemma updateLastAssistantPart_other:
  assumes "other \<noteq> partType"
  shows "lastText other (applied (updateLastAssistantPart partType updater ms) ms) = lastText other ms"
  using assms
  by (auto simp: updateLastAssistantPart_def lastText_def applied_def Let_def
      last_conv_nth previousTextOf_nextPartsOf_other split: option.splits)

text \<open>The payload is a streaming delta event: its event type is one of the six of
  the streaming branch.\<close>

definition isStreamDelta :: "json \<Rightarrow> bool" where
  "isStreamDelta payload =
     (case eventType payload of None \<Rightarrow> False | Some t \<Rightarrow> isStreamEventType t)"

text \<open>The delta extracted from a payload, the empty string when there is
  none.\<close>

definition deltaOf :: "parser \<Rightarrow> json \<Rightarrow> string" where
  "deltaOf P payload = (case extractStreamText P payload of None \<Rightarrow> [] | Some d \<Rightarrow> d)"

lemma eventType_falsy: "\<not> truthy payload \<Longrightarrow> eventType payload = Some []"
  by (simp add: eventType_def getField_falsy coalesce_def)

lemma messages_setMessages:
  "messages (setMessages f st) = applied (f (messages st)) (messages st)"
  by (simp add: setMessages_def applied_def split: update.splits)

lemma setMessages_Same: "f (messages st) = Same \<Longrightarrow> setMessages f st = st"
  by (simp add: setMessages_def)

lemma append_text_step:
  assumes "lastIsAssistant (messages st)"
  shows "lastIsAssistant (messages (updateAssistantMessage (\<lambda>previous. Some (previous @ d)) st))
       \<and> lastText ''text'' (messages (updateAssistantMessage (\<lambda>previous. Some (previous @ d)) st))
           = lastText ''text'' (messages st) @ d"
  using assms
  by (simp add: updateAssistantMessage_def messages_setMessages
      updateLastAssistantPart_keeps_assistant updateLastAssistantPart_text)

lemma replace_text_step:
  assumes "lastIsAssistant (messages st)"
  shows "lastIsAssistant (messages (updateAssistantMessage (\<lambda>previous. Some t) st))
       \<and> lastText ''text'' (messages (updateAssistantMessage (\<lambda>previous. Some t) st)) = t"
  using assms
  by (simp add: updateAssistantMessage_def messages_setMessages
      updateLastAssistantPart_keeps_assistant updateLastAssistantPart_text)

lemma reasoning_step:
  assumes "lastIsAssistant (messages st)"
  shows "lastIsAssistant (messages (updateAssistantReasoning updater st))
       \<and> lastText ''text'' (messages (updateAssistantReasoning updater st))
           = lastText ''text'' (messages st)"
  using assms
  by (simp add: updateAssistantReasoning_def messages_setMessages
      updateLastAssistantPart_keeps_assistant updateLastAssistantPart_other)

lemma stream_step:
  assumes "lastIsAssistant (messages st)" and "isStreamDelta payload"
  shows "lastIsAssistant (messages (stateOf (handleStreamPayload P payload st)))
       \<and> lastText ''text'' (messages (stateOf (handleStreamPayload P payload st)))
           = lastText ''text'' (messages st) @ deltaOf P payload"
proof -
  from assms(2) obtain t where t: "eventType payload = Some t" "isStreamEventType t"
    by (auto simp: isStreamDelta_def split: option.splits)
  then have tr: "truthy payload"
    using eventType_falsy [of payload] by (auto simp: isStreamEventType_def)
  define st1 where "st1 = st\<lparr>dataStream := dataStream st @ [payload]\<rparr>"
  define st2 where "st2 =
    (if extractStreamText P payload \<noteq> None \<and> extractStreamText P payload \<noteq> Some []
     then appendChunk (extractStreamText P payload) st1 else st1)"
  have a1: "lastIsAssistant (messages st1)" "lastText ''text'' (messages st1) = lastText ''text'' (messages st)"
    using assms(1) by (simp_all add: st1_def)
  have a2: "lastIsAssistant (messages st2)
     \<and> lastText ''text'' (messages st2) = lastText ''text'' (messages st) @ deltaOf P payload"
    using a1 append_text_step [of st1]
    by (auto simp: st2_def deltaOf_def appendChunk_def)
  have "stateOf (handleStreamPayload P payload st) =
     (if isString (reasoningDelta payload) \<and> length (strVal (reasoningDelta payload)) > 0 then
        updateAssistantReasoning (\<lambda>previous. Some (previous @ strVal (reasoningDelta payload))) st2
      else st2)"
    using t tr by (simp add: handleStreamPayload_def Let_def st1_def st2_def)
  with a2 reasoning_step [of st2] show ?thesis
    by simp
qed

lemma final_step:
  assumes "lastIsAssistant (messages st)" and "eventType endEvent = Some ''on_chat_model_end''"
    and "extractFinalText P endEvent = Some finalText"
  shows "lastText ''text'' (messages (stateOf (handleStreamPayload P endEvent st))) = finalText"
proof -
  have tr: "truthy endEvent"
    using eventType_falsy [of endEvent] assms(2) by auto
  have ne: "finalText \<noteq> []"
    using nonEmptyOrNull_firstText [of P "finalCandidates endEvent"] assms(3) tr
    by (auto simp: nonEmptyOrNull_def extractFinalText_def)
  define st1 where "st1 = st\<lparr>dataStream := dataStream st @ [endEvent]\<rparr>"
  define st2 where "st2 = updateAssistantMessage (\<lambda>previous. Some finalText) st1"
  have a1: "lastIsAssistant (messages st1)"
    using assms(1) by (simp add: st1_def)
  have a2: "lastIsAssistant (messages st2) \<and> lastText ''text'' (messages st2) = finalText"
    unfolding st2_def using a1 by (rule replace_text_step)
  have "stateOf (handleStreamPayload P endEvent st) =
     (if isString (finalReasoning endEvent) \<and> length (strVal (finalReasoning endEvent)) > 0 then
        updateAssistantReasoning (\<lambda>previous. Some (strVal (finalReasoning endEvent))) st2
      else st2)"
    using assms(2,3) tr ne
    by (simp add: handleStreamPayload_def Let_def st1_def st2_def isStreamEventType_def)
  with a2 reasoning_step [of st2] show ?thesis
    by simp
qed

lemma handleAll_stream:
  assumes "lastIsAssistant (messages st)" and "\<forall>payload \<in> set payloads. isStreamDelta payload"
  shows "lastIsAssistant (messages (handleAll P payloads st))
       \<and> lastText ''text'' (messages (handleAll P payloads st))
           = lastText ''text'' (messages st) @ concat (map (deltaOf P) payloads)"
  using assms
proof (induction payloads arbitrary: st)
  case Nil
  then show ?case by simp
next
  case (Cons payload rest)
  from Cons.prems have s: "lastIsAssistant (messages (stateOf (handleStreamPayload P payload st)))"
    "lastText ''text'' (messages (stateOf (handleStreamPayload P payload st)))
       = lastText ''text'' (messages st) @ deltaOf P payload"
    using stream_step [of st payload P] by simp_all
  from Cons.IH [OF s(1)] Cons.prems(2) s(2) show ?case
    by simp
qed

text \<open>
  Claim C1: for every sequence of streaming delta events handled while the last turn is
  an assistant turn, the text part of that turn is its initial text followed by the
  extracted deltas in the order of arrival (an event with no text contributes the empty
  string); and an \<open>on_chat_model_end\<close> event handled next, whose payload yields a final
  text, sets the text part to exactly that text.
\<close>

theorem stream_deltas_concatenate:
  assumes "lastIsAssistant (messages st)" and "\<forall>payload \<in> set payloads. isStreamDelta payload"
  shows "lastText ''text'' (messages (handleAll P payloads st))
           = lastText ''text'' (messages st) @ concat (map (deltaOf P) payloads)
       \<and> (eventType endEvent = Some ''on_chat_model_end'' \<longrightarrow>
          extractFinalText P endEvent = Some finalText \<longrightarrow>
          lastText ''text'' (messages (stateOf (handleStreamPayload P endEvent (handleAll P payloads st))))
            = finalText)"
  using handleAll_stream [OF assms] final_step by blast

lemmas payload_evals =
  eventType_def isStreamEventType_def coalesce_def path_def
  extractStreamText_def extractFinalText_def streamCandidates_def finalCandidates_def
  reasoningDelta_def finalReasoning_def

theorem stream_deltas_concatenate_witness:
  "lastIsAssistant (messages sampleStreaming)
   \<and> isStreamDelta (streamPayload ''Hel'') \<and> isStreamDelta (streamPayload ''lo'')
   \<and> lastText ''text'' (messages sampleStreaming) = []
   \<and> deltaOf (tableParser []) (streamPayload ''Hel'') = ''Hel''
   \<and> deltaOf (tableParser []) (streamPayload ''lo'') = ''lo''
   \<and> lastText ''text''
        (messages (handleAll (tableParser []) [streamPayload ''Hel'', streamPayload ''lo''] sampleStreaming))
       = ''Hello''
   \<and> eventType finalPayload = Some ''on_chat_model_end''
   \<and> extractFinalText (tableParser []) finalPayload = Some ''Final answer''
   \<and> lastText ''text''
        (messages (stateOf (handleStreamPayload (tableParser []) finalPayload
           (handleAll (tableParser []) [streamPayload ''Hel'', streamPayload ''lo''] sampleStreaming))))
       = ''Final answer''"
proof -
  have h1: "lastIsAssistant (messages sampleStreaming)"
    by (simp add: lastIsAssistant_def sampleStreaming_def samplePlaceholder_def)
  have h2: "\<forall>payload \<in> set [streamPayload ''Hel'', streamPayload ''lo'']. isStreamDelta payload"
    by (simp add: isStreamDelta_def streamPayload_def payload_evals)
  have t0: "lastText ''text'' (messages sampleStreaming) = []"
    by (simp add: lastText_def sampleStreaming_def samplePlaceholder_def previousTextOf_def
        hasType_def)
  have d1: "deltaOf (tableParser []) (streamPayload ''Hel'') = ''Hel''"
    by (simp add: deltaOf_def streamPayload_def payload_evals string_evals)
  have d2: "deltaOf (tableParser []) (streamPayload ''lo'') = ''lo''"
    by (simp add: deltaOf_def streamPayload_def payload_evals string_evals)
  have e: "eventType finalPayload = Some ''on_chat_model_end''"
    by (simp add: finalPayload_def payload_evals)
  have f: "extractFinalText (tableParser []) finalPayload = Some ''Final answer''"
    by (simp add: finalPayload_def payload_evals string_evals)
  from stream_deltas_concatenate [OF h1 h2, of "tableParser []" finalPayload "''Final answer''"]
    h1 h2 t0 d1 d2 e f
  show ?thesis by simp
qed

text \<open>The payload has a non-empty reasoning delta.\<close>

definition carriesReasoning :: "json \<Rightarrow> bool" where
  "carriesReasoning payload =
     (isString (reasoningDelta payload) \<and> length (strVal (reasoningDelta payload)) > 0)"

text \<open>
  Claim C4, as stated: a streaming delta event whose extracted text is empty leaves the
  messages array as it is. It does not when the event carries a reasoning delta: the
  chunk \<open>{content: "", reasoning: "because"}\<close> yields no text, and the reasoning is
  appended to the last turn in a new messages array.
\<close>

theorem empty_delta_changes_transcript_with_reasoning:
  "isStreamDelta reasoningOnlyPayload
   \<and> extractStreamText (tableParser []) reasoningOnlyPayload = None
   \<and> messages (stateOf (handleStreamPayload (tableParser []) reasoningOnlyPayload sampleStreaming))
       = [sampleUser,
          samplePlaceholder
            \<lparr>parts := [JObj [(''type'', JStr ''text''), (''text'', JStr [])],
                       JObj [(''type'', JStr ''reasoning''), (''text'', JStr ''because'')]]\<rparr>]
   \<and> messages (stateOf (handleStreamPayload (tableParser []) reasoningOnlyPayload sampleStreaming))
       \<noteq> messages sampleStreaming
   \<and> messagesVersion
        (stateOf (handleStreamPayload (tableParser []) reasoningOnlyPayload sampleStreaming))
       = Suc (messagesVersion sampleStreaming)"
proof -
  have e: "eventType reasoningOnlyPayload = Some ''on_chat_model_stream''"
    by (simp add: reasoningOnlyPayload_def payload_evals)
  have x: "extractStreamText (tableParser []) reasoningOnlyPayload = None"
    by (simp add: reasoningOnlyPayload_def payload_evals string_evals)
  have r: "reasoningDelta reasoningOnlyPayload = JStr ''because''"
    by (simp add: reasoningOnlyPayload_def payload_evals)
  have t: "truthy reasoningOnlyPayload"
    by (simp add: reasoningOnlyPayload_def)
  have h: "stateOf (handleStreamPayload (tableParser []) reasoningOnlyPayload sampleStreaming)
        = updateAssistantReasoning (\<lambda>previous. Some (previous @ ''because''))
            (sampleStreaming\<lparr>dataStream := dataStream sampleStreaming @ [reasoningOnlyPayload]\<rparr>)"
    by (simp add: handleStreamPayload_def e x r t isStreamEventType_def)
  have u: "updateLastAssistantPart ''reasoning'' (\<lambda>previous. Some (previous @ ''because''))
             [sampleUser, samplePlaceholder]
        = Fresh [sampleUser,
                 samplePlaceholder
                   \<lparr>parts := [JObj [(''type'', JStr ''text''), (''text'', JStr [])],
                              JObj [(''type'', JStr ''reasoning''), (''text'', JStr ''because'')]]\<rparr>]"
    by (simp add: updateLastAssistantPart_def samplePlaceholder_def previousTextOf_def
        nextPartsOf_def hasType_def)
  have m: "messages (stateOf (handleStreamPayload (tableParser []) reasoningOnlyPayload sampleStreaming))
       = [sampleUser,
          samplePlaceholder
            \<lparr>parts := [JObj [(''type'', JStr ''text''), (''text'', JStr [])],
                       JObj [(''type'', JStr ''reasoning''), (''text'', JStr ''because'')]]\<rparr>]"
    unfolding h by (simp add: updateAssistantReasoning_def setMessages_def sampleStreaming_def u)
  have v: "messagesVersion
        (stateOf (handleStreamPayload (tableParser []) reasoningOnlyPayload sampleStreaming))
       = Suc (messagesVersion sampleStreaming)"
    unfolding h by (simp add: updateAssistantReasoning_def setMessages_def sampleStreaming_def u)
  have d: "messages (stateOf (handleStreamPayload (tableParser []) reasoningOnlyPayload sampleStreaming))
       \<noteq> messages sampleStreaming"
    unfolding m by (simp add: sampleStreaming_def samplePlaceholder_def)
  from e x m v d show ?thesis
    by (simp add: isStreamDelta_def isStreamEventType_def)
qed

text \<open>
  Claim C4, amended: for every transcript state, a streaming delta event whose extracted
  text is empty or absent, and which carries no non-empty reasoning delta, only adds the
  payload to the data stream: \<open>setMessages\<close> is not called, so the messages array is
  the very same and the transcript is not rendered again. And the updater that appends
  the empty string returns the array it was given, whatever the part type.
\<close>

theorem empty_delta_leaves_transcript:
  assumes "isStreamDelta payload"
    and "extractStreamText P payload = None \<or> extractStreamText P payload = Some []"
    and "\<not> carriesReasoning payload"
  shows "handleStreamPayload P payload st = Returned (st\<lparr>dataStream := dataStream st @ [payload]\<rparr>)
       \<and> setMessages (updateLastAssistantPart partType (\<lambda>previous. Some (previous @ []))) st = st"
proof -
  from assms(1) obtain t where t: "eventType payload = Some t" "isStreamEventType t"
    by (auto simp: isStreamDelta_def split: option.splits)
  then have tr: "truthy payload"
    using eventType_falsy [of payload] by (auto simp: isStreamEventType_def)
  from t tr assms(2,3) have "handleStreamPayload P payload st
      = Returned (st\<lparr>dataStream := dataStream st @ [payload]\<rparr>)"
    by (auto simp: handleStreamPayload_def Let_def carriesReasoning_def)
  moreover have "setMessages (updateLastAssistantPart partType (\<lambda>previous. Some (previous @ []))) st = st"
    by (simp add: setMessages_def updateLastAssistantPart_def Let_def)
  ultimately show ?thesis
    by simp
qed

theorem empty_delta_leaves_transcript_witness:
  "isStreamDelta emptyDeltaPayload
   \<and> extractStreamText (tableParser []) emptyDeltaPayload = None
   \<and> \<not> carriesReasoning emptyDeltaPayload
   \<and> handleStreamPayload (tableParser []) emptyDeltaPayload sampleStreaming
       = Returned (sampleStreaming\<lparr>dataStream := [emptyDeltaPayload]\<rparr>)
   \<and> setMessages (updateLastAssistantPart ''text'' (\<lambda>previous. Some (previous @ [])))
        sampleStreaming = sampleStreaming"
proof -
  have h1: "isStreamDelta emptyDeltaPayload"
    by (simp add: isStreamDelta_def emptyDeltaPayload_def payload_evals)
  have h2: "extractStreamText (tableParser []) emptyDeltaPayload = None"
    by (simp add: emptyDeltaPayload_def payload_evals string_evals)
  have h3: "\<not> carriesReasoning emptyDeltaPayload"
    by (simp add: carriesReasoning_def emptyDeltaPayload_def payload_evals)
  from empty_delta_leaves_transcript [OF h1 disjI1 [OF h2] h3, of sampleStreaming "''text''"]
    h1 h2 h3
  show ?thesis by (simp add: sampleStreaming_def)
qed

text \<open>Two transcripts have the same number of turns and the same turns before the
  last.\<close>

definition sameButLast :: "chatMessage list \<Rightarrow> chatMessage list \<Rightarrow> bool" where
  "sameButLast ms' ms = (length ms' = length ms \<and> butlast ms' = butlast ms)"

lemma sameButLast_refl: "sameButLast ms ms"
  by (simp add: sameButLast_def)

lemma sameButLast_trans: "sameButLast a b \<Longrightarrow> sameButLast b c \<Longrightarrow> sameButLast a c"
  by (simp add: sameButLast_def)

lemma sameButLast_updateLast:
  "sameButLast (applied (updateLastAssistantPart partType updater ms) ms) ms"
  using updateLastAssistantPart_frame by (simp add: sameButLast_def)

lemma sameButLast_text: "sameButLast (messages (updateAssistantMessage u st)) (messages st)"
  by (simp add: updateAssistantMessage_def messages_setMessages sameButLast_updateLast)

lemma sameButLast_reasoning: "sameButLast (messages (updateAssistantReasoning u st)) (messages st)"
  by (simp add: updateAssistantReasoning_def messages_setMessages sameButLast_updateLast)

lemma handleStreamPayload_preserves:
  assumes q0: "Q st"
    and q1: "\<And>(s :: chat_state) d. Q s \<Longrightarrow> Q (s\<lparr>dataStream := d\<rparr>)"
    and q2: "\<And>s u. Q s \<Longrightarrow> Q (updateAssistantMessage u s)"
    and q3: "\<And>s u. Q s \<Longrightarrow> Q (updateAssistantReasoning u s)"
    and q4: "\<And>s n. Q s \<Longrightarrow> Q (setStatus ''ready'' (toast n s))"
  shows "Q (stateOf (handleStreamPayload P payload st))"
proof (cases "truthy payload")
  case False
  with q0 show ?thesis by (simp add: handleStreamPayload_def)
next
  case True
  define st1 where "st1 = st\<lparr>dataStream := dataStream st @ [payload]\<rparr>"
  have s1: "Q st1" unfolding st1_def using q0 by (rule q1)
  have ac: "Q (appendChunk c st1)" for c
    by (cases c) (simp_all add: appendChunk_def s1 q2)
  show ?thesis
  proof (cases "eventType payload")
    case None
    with True s1 show ?thesis by (simp add: handleStreamPayload_def st1_def)
  next
    case (Some t)
    show ?thesis
    proof (cases "isStreamEventType t")
      case s: True
      define st2 where "st2 =
        (if extractStreamText P payload \<noteq> None \<and> extractStreamText P payload \<noteq> Some []
         then appendChunk (extractStreamText P payload) st1 else st1)"
      define st3 where "st3 =
        (if isString (reasoningDelta payload) \<and> length (strVal (reasoningDelta payload)) > 0
         then updateAssistantReasoning
                (\<lambda>previous. Some (previous @ strVal (reasoningDelta payload))) st2
         else st2)"
      have "Q st2"
        unfolding st2_def using s1 ac by simp
      then have "Q st3"
        unfolding st3_def using q3 by simp
      moreover have "stateOf (handleStreamPayload P payload st) = st3"
        using True Some s unfolding st3_def st2_def st1_def
        by (simp add: handleStreamPayload_def Let_def)
      ultimately show ?thesis by simp
    next
      case ns: False
      show ?thesis
      proof (cases "t = ''on_chat_model_end''")
        case f: True
        define st2 where "st2 = (case extractFinalText P payload of
                            None \<Rightarrow> st1
                          | Some fc \<Rightarrow>
                              if fc \<noteq> [] then updateAssistantMessage (\<lambda>previous. Some fc) st1
                              else st1)"
        define st3 where "st3 =
          (if isString (finalReasoning payload) \<and> length (strVal (finalReasoning payload)) > 0
           then updateAssistantReasoning (\<lambda>previous. Some (strVal (finalReasoning payload))) st2
           else st2)"
        have "Q st2"
          unfolding st2_def using s1 q2 by (simp split: option.splits)
        then have "Q st3"
          unfolding st3_def using q3 by simp
        moreover have "stateOf (handleStreamPayload P payload st) = st3"
          using True Some ns f unfolding st3_def st2_def st1_def
          by (simp add: handleStreamPayload_def Let_def)
        ultimately show ?thesis by simp
      next
        case nf: False
        show ?thesis
        proof (cases "t = ''on_chain_error''")
          case True
          with \<open>truthy payload\<close> Some ns nf q4 [OF s1] show ?thesis
            by (simp add: handleStreamPayload_def Let_def st1_def)
        next
          case False
          with \<open>truthy payload\<close> Some ns nf s1 show ?thesis
            by (simp add: handleStreamPayload_def Let_def st1_def)
        qed
      qed
    qed
  qed
qed

lemma handleStreamPayload_sameButLast:
  "sameButLast (messages (stateOf (handleStreamPayload P payload st))) (messages st)"
proof (rule handleStreamPayload_preserves [where Q = "\<lambda>s. sameButLast (messages s) (messages st)"])
  show "sameButLast (messages st) (messages st)"
    by (rule sameButLast_refl)
next
  fix s :: chat_state and d :: "json list"
  assume "sameButLast (messages s) (messages st)"
  then show "sameButLast (messages (s\<lparr>dataStream := d\<rparr>)) (messages st)"
    by simp
next
  fix s :: chat_state and u :: "string \<Rightarrow> string option"
  assume "sameButLast (messages s) (messages st)"
  with sameButLast_text [of u s]
  show "sameButLast (messages (updateAssistantMessage u s)) (messages st)"
    by (rule sameButLast_trans)
next
  fix s :: chat_state and u :: "string \<Rightarrow> string option"
  assume "sameButLast (messages s) (messages st)"
  with sameButLast_reasoning [of u s]
  show "sameButLast (messages (updateAssistantReasoning u s)) (messages st)"
    by (rule sameButLast_trans)
next
  fix s :: chat_state and n :: notice
  assume "sameButLast (messages s) (messages st)"
  then show "sameButLast (messages (setStatus ''ready'' (toast n s))) (messages st)"
    by (simp add: setStatus_def toast_def)
qed

lemma setMessages_noop:
  "\<not> lastIsAssistant (messages st) \<Longrightarrow> setMessages (updateLastAssistantPart partType u) st = st"
  by (simp add: setMessages_Same updateLastAssistantPart_noop)

lemma handleStreamPayload_noop:
  assumes "\<not> lastIsAssistant (messages st)"
  shows "messages (stateOf (handleStreamPayload P payload st)) = messages st
       \<and> messagesVersion (stateOf (handleStreamPayload P payload st)) = messagesVersion st"
  by (rule handleStreamPayload_preserves
        [where Q = "\<lambda>s. messages s = messages st \<and> messagesVersion s = messagesVersion st"])
     (use assms in \<open>simp_all add: updateAssistantMessage_def updateAssistantReasoning_def
        setMessages_noop setStatus_def toast_def\<close>)

text \<open>
  Claim C5: every transcript update of the aggregator (\<open>updateLastAssistantPart\<close> with
  any part type and updater, and so every event handled by \<open>handleStreamPayload\<close>)
  keeps the number of turns and every turn but the last; and when the transcript is
  empty or its last turn is not an assistant turn, the updater returns the array it was
  given and the messages state is left as it is.
\<close>

theorem aggregator_touches_last_turn_only:
  "sameButLast (applied (updateLastAssistantPart partType updater ms) ms) ms
   \<and> (\<not> lastIsAssistant ms \<longrightarrow> updateLastAssistantPart partType updater ms = Same)
   \<and> sameButLast (messages (stateOf (handleStreamPayload P payload st))) (messages st)
   \<and> (\<not> lastIsAssistant (messages st) \<longrightarrow>
        messages (stateOf (handleStreamPayload P payload st)) = messages st
        \<and> messagesVersion (stateOf (handleStreamPayload P payload st)) = messagesVersion st)"
  using sameButLast_updateLast updateLastAssistantPart_noop handleStreamPayload_sameButLast
    handleStreamPayload_noop
  by blast

theorem aggregator_touches_last_turn_only_witness:
  "\<not> lastIsAssistant [sampleUser]
   \<and> updateLastAssistantPart ''text'' (\<lambda>previous. Some (previous @ ''Hel'')) [sampleUser] = Same
   \<and> \<not> lastIsAssistant (messages sampleSubmitted)
   \<and> messages (stateOf (handleStreamPayload (tableParser []) (streamPayload ''Hel'') sampleSubmitted))
       = [sampleUser]
   \<and> messagesVersion
        (stateOf (handleStreamPayload (tableParser []) (streamPayload ''Hel'') sampleSubmitted)) = 2
   \<and> sameButLast
        (messages (stateOf (handleStreamPayload (tableParser []) (streamPayload ''Hel'') sampleStreaming)))
        [sampleUser, samplePlaceholder]"
proof -
  have h1: "\<not> lastIsAssistant [sampleUser]"
    by (simp add: lastIsAssistant_def sampleUser_def)
  have h2: "\<not> lastIsAssistant (messages sampleSubmitted)"
    by (simp add: lastIsAssistant_def sampleSubmitted_def sampleUser_def)
  have m: "messages sampleSubmitted = [sampleUser]" "messagesVersion sampleSubmitted = 2"
    "messages sampleStreaming = [sampleUser, samplePlaceholder]"
    by (simp_all add: sampleSubmitted_def sampleStreaming_def)
  from aggregator_touches_last_turn_only
         [of "''text''" "\<lambda>previous. Some (previous @ ''Hel'')" "[sampleUser]" "tableParser []"
             "streamPayload ''Hel''" sampleSubmitted]
       aggregator_touches_last_turn_only
         [of "''text''" "\<lambda>previous. Some (previous @ ''Hel'')" "[sampleUser]" "tableParser []"
             "streamPayload ''Hel''" sampleStreaming]
       h1 h2 m
  show ?thesis by simp
qed

section \<open>Properties of the event stream adapter\<close>

text \<open>The frames the adapter drops: no data, empty data, or data that \<open>JSON.parse\<close>
  rejects.\<close>

definition badData :: "parser \<Rightarrow> string option \<Rightarrow> bool" where
  "badData P data = (case data of None \<Rightarrow> True | Some d \<Rightarrow> d = [] \<or> JSON_parse P d = None)"

lemma forward_bad: "badData P data \<Longrightarrow> forward P opts name data st = ([], Returned st)"
  by (auto simp: badData_def forward_def forwardTry_def split: option.splits)

lemma runListeners_bad: "badData P data \<Longrightarrow> runListeners P opts ns data st = ([], st)"
  by (induction ns) (simp_all add: forward_bad)

lemma dispatch_bad: "badData P data \<Longrightarrow> dispatch P opts (channel, data) st = ([], st)"
  by (simp add: dispatch_def runListeners_bad)

lemma deliver_append:
  "deliver P opts (xs @ ys) st =
     (case deliver P opts xs st of
        (calls, st1) \<Rightarrow> (case deliver P opts ys st1 of (calls', st2) \<Rightarrow> (calls @ calls', st2)))"
  by (induction xs arbitrary: st) (auto split: prod.splits)

text \<open>
  Claim C8: for every frame whose data is absent or empty, or does not parse as JSON,
  the listener invokes no callback and returns without throwing, with the state as it
  was; the frame is dispatched to no effect on whatever channel it came; and the frames
  before and after it in the stream are processed as if it had not been there.
\<close>

theorem malformed_frame_ignored:
  assumes "badData P data"
  shows "forward P opts name data st = ([], Returned st)
       \<and> dispatch P opts (channel, data) st = ([], st)
       \<and> deliver P opts (before @ [(channel, data)] @ after) st = deliver P opts (before @ after) st"
proof -
  have "deliver P opts ((channel, data) # after) s = deliver P opts after s" for s
    using assms by (simp add: dispatch_bad split: prod.splits)
  then show ?thesis
    using assms by (simp add: forward_bad dispatch_bad deliver_append)
qed

lemma sampleParser_graphEnd: "JSON_parse sampleParser graphEndText = Some graphEnd"
  by (simp add: sampleParser_def JSON_parse_tableParser graphEndText_def graphEnd_def quoted_def)

lemma sampleParser_hello: "JSON_parse sampleParser helloText = Some (streamPayload ''Hel'')"
  by (simp add: sampleParser_def JSON_parse_tableParser graphEndText_def helloText_def
      streamPayload_def quoted_def dquote_def)

lemma sampleParser_broken: "JSON_parse sampleParser ''{oops'' = None"
  by (simp add: sampleParser_def JSON_parse_tableParser graphEndText_def helloText_def quoted_def)

lemma handle_hello:
  "handleStreamPayload sampleParser (streamPayload ''Hel'') sampleStreaming
     = Returned (sampleStreaming
         \<lparr>dataStream := [streamPayload ''Hel''],
          messages := [sampleUser, samplePlaceholder
             \<lparr>parts := [JObj [(''type'', JStr ''text''), (''text'', JStr ''Hel'')]]\<rparr>],
          messagesVersion := 3\<rparr>)"
proof -
  have e: "eventType (streamPayload ''Hel'') = Some ''on_chat_model_stream''"
    by (simp add: streamPayload_def payload_evals)
  have x: "extractStreamText sampleParser (streamPayload ''Hel'') = Some ''Hel''"
    by (simp add: streamPayload_def payload_evals string_evals)
  have r: "reasoningDelta (streamPayload ''Hel'') = JUndefined"
    by (simp add: streamPayload_def payload_evals)
  have t: "truthy (streamPayload ''Hel'')"
    by (simp add: streamPayload_def)
  have u: "updateLastAssistantPart ''text'' (\<lambda>previous. Some (previous @ ''Hel''))
             [sampleUser, samplePlaceholder]
        = Fresh [sampleUser, samplePlaceholder
             \<lparr>parts := [JObj [(''type'', JStr ''text''), (''text'', JStr ''Hel'')]]\<rparr>]"
    by (simp add: updateLastAssistantPart_def samplePlaceholder_def previousTextOf_def
        nextPartsOf_def hasType_def withTypeAndText_def)
  have "handleStreamPayload sampleParser (streamPayload ''Hel'') sampleStreaming
      = Returned (updateAssistantMessage (\<lambda>previous. Some (previous @ ''Hel''))
          (sampleStreaming\<lparr>dataStream := dataStream sampleStreaming @ [streamPayload ''Hel'']\<rparr>))"
    by (simp add: handleStreamPayload_def e x r t isStreamEventType_def appendChunk_def)
  then show ?thesis
    by (simp add: updateAssistantMessage_def setMessages_def sampleStreaming_def u)
qed

theorem malformed_frame_ignored_witness:
  "badData sampleParser (Some ''{oops'')
   \<and> badData sampleParser None
   \<and> forward sampleParser (chatOptions sampleParser) ''message'' (Some ''{oops'') sampleStreaming
       = ([], Returned sampleStreaming)
   \<and> deliver sampleParser (chatOptions sampleParser)
        [(''message'', Some ''{oops''), (''on_chat_model_stream'', Some helloText)] sampleStreaming
       = deliver sampleParser (chatOptions sampleParser)
           [(''on_chat_model_stream'', Some helloText)] sampleStreaming
   \<and> deliver sampleParser (chatOptions sampleParser)
        [(''on_chat_model_stream'', Some helloText)] sampleStreaming
       = ([EventCall (streamPayload ''Hel'') ''on_chat_model_stream''],
          sampleStreaming
            \<lparr>dataStream := [streamPayload ''Hel''],
             messages := [sampleUser, samplePlaceholder
               \<lparr>parts := [JObj [(''type'', JStr ''text''), (''text'', JStr ''Hel'')]]\<rparr>],
             messagesVersion := 3\<rparr>)"
proof -
  have b1: "badData sampleParser (Some ''{oops'')"
    by (simp add: badData_def sampleParser_broken)
  have b2: "badData sampleParser None"
    by (simp add: badData_def)
  have n: "helloText \<noteq> []"
    by (simp add: helloText_def quoted_def)
  have g: "\<not> isGraphEnd (chatOptions sampleParser) (streamPayload ''Hel'')"
    by (simp add: isGraphEnd_def streamPayload_def)
  have l: "filter (\<lambda>name. name = ''on_chat_model_stream'') (names (chatOptions sampleParser))
        = [''on_chat_model_stream'']"
    by (simp add: names_def chatOptions_def DEFAULT_SSE_EVENTS_def)
  have o: "onEvent (chatOptions sampleParser)
        = Some (\<lambda>payload name. handleStreamPayload sampleParser payload)"
    by (simp add: chatOptions_def)
  have f: "forward sampleParser (chatOptions sampleParser) ''on_chat_model_stream'' (Some helloText)
        sampleStreaming
       = ([EventCall (streamPayload ''Hel'') ''on_chat_model_stream''],
          Returned (sampleStreaming
            \<lparr>dataStream := [streamPayload ''Hel''],
             messages := [sampleUser, samplePlaceholder
               \<lparr>parts := [JObj [(''type'', JStr ''text''), (''text'', JStr ''Hel'')]]\<rparr>],
             messagesVersion := 3\<rparr>))"
    by (simp add: forward_def forwardTry_def n sampleParser_hello g o handle_hello)
  have d: "deliver sampleParser (chatOptions sampleParser)
        [(''on_chat_model_stream'', Some helloText)] sampleStreaming
       = ([EventCall (streamPayload ''Hel'') ''on_chat_model_stream''],
          sampleStreaming
            \<lparr>dataStream := [streamPayload ''Hel''],
             messages := [sampleUser, samplePlaceholder
               \<lparr>parts := [JObj [(''type'', JStr ''text''), (''text'', JStr ''Hel'')]]\<rparr>],
             messagesVersion := 3\<rparr>)"
    by (simp add: dispatch_def l f)
  from malformed_frame_ignored [OF b1, of "chatOptions sampleParser" "''message''" sampleStreaming
         "''message''" "[]" "[(''on_chat_model_stream'', Some helloText)]"]
       b1 b2 d
  show ?thesis by simp
qed

text \<open>The event callback, if there is one, returns on the payload instead of
  throwing.\<close>

definition returnsNormally ::
  "'st conversationStreamOptions \<Rightarrow> json \<Rightarrow> string \<Rightarrow> 'st \<Rightarrow> bool" where
  "returnsNormally opts payload name st =
     (case onEvent opts of
        None \<Rightarrow> True
      | Some callback \<Rightarrow> (case callback payload name st of Returned st1 \<Rightarrow> True | Threw st1 \<Rightarrow> False))"

text \<open>The completion callback is among the callbacks a listener has invoked.\<close>

definition completionInvoked :: "call list \<times> 'st outcome \<Rightarrow> bool" where
  "completionInvoked r = (CompleteCall \<in> set (fst r))"

lemma graphEndText_nonempty: "graphEndText \<noteq> []"
  by (simp add: graphEndText_def)

text \<open>
  Claim C2, as stated: for every parsed frame, the completion callback is invoked if the
  payload is an \<open>on_chain_end\<close> of a final agent. It is not when the event callback
  throws on the payload: the exception leaves the \<open>try\<close> block before the test, and the
  \<open>catch\<close> swallows it.
\<close>

theorem completion_skipped_when_event_callback_throws:
  "graphEndText \<noteq> []
   \<and> JSON_parse sampleParser graphEndText = Some graphEnd
   \<and> isGraphEnd throwingOptions graphEnd
   \<and> forward sampleParser throwingOptions ''on_chain_end'' (Some graphEndText) ()
       = ([EventCall graphEnd ''on_chain_end''], Returned ())
   \<and> \<not> completionInvoked
          (forward sampleParser throwingOptions ''on_chain_end'' (Some graphEndText) ())"
proof -
  have g: "isGraphEnd throwingOptions graphEnd"
    by (simp add: isGraphEnd_def graphEnd_def final_def throwingOptions_def)
  have f: "forward sampleParser throwingOptions ''on_chain_end'' (Some graphEndText) ()
       = ([EventCall graphEnd ''on_chain_end''], Returned ())"
    by (simp add: forward_def forwardTry_def graphEndText_nonempty sampleParser_graphEnd
        throwingOptions_def)
  show ?thesis
    by (simp add: graphEndText_nonempty sampleParser_graphEnd g f completionInvoked_def)
qed

lemma fst_forward:
  assumes "d \<noteq> []" and "JSON_parse P d = Some payload"
  shows "fst (forward P opts name (Some d) st)
       = (case onEvent opts of None \<Rightarrow> [] | Some callback \<Rightarrow> [EventCall payload name])
         @ (if returnsNormally opts payload name st \<and> isGraphEnd opts payload
               \<and> onComplete opts \<noteq> None
            then [CompleteCall] else [])"
proof (cases "onEvent opts")
  case None
  with assms show ?thesis
    by (cases "onComplete opts") (simp_all add: forward_def forwardTry_def returnsNormally_def)
next
  case (Some callback)
  show ?thesis
  proof (cases "callback payload name st")
    case (Returned st1)
    with assms Some show ?thesis
      by (cases "onComplete opts") (simp_all add: forward_def forwardTry_def returnsNormally_def)
  next
    case (Threw st1)
    with assms Some show ?thesis
      by (simp add: forward_def forwardTry_def returnsNormally_def)
  qed
qed

lemma forward_completion:
  assumes "d \<noteq> []" and "JSON_parse P d = Some payload"
    and "returnsNormally opts payload name st"
  shows "completionInvoked (forward P opts name (Some d) st)
       = (isGraphEnd opts payload \<and> onComplete opts \<noteq> None)"
proof -
  have "set (case onEvent opts of None \<Rightarrow> [] | Some callback \<Rightarrow> [EventCall payload name])
        \<subseteq> {EventCall payload name}"
    by (cases "onEvent opts") simp_all
  then have n: "CompleteCall \<notin> set (case onEvent opts of None \<Rightarrow> [] | Some callback \<Rightarrow> [EventCall payload name])"
    by blast
  show ?thesis
    unfolding completionInvoked_def fst_forward [OF assms(1,2)]
    using n assms(3) by simp
qed

lemma handleStreamPayload_Threw:
  assumes "handleStreamPayload P payload st = Threw st1"
  shows "eventType payload = None"
proof (cases "eventType payload")
  case None
  then show ?thesis .
next
  case (Some t)
  then have "\<exists>s. handleStreamPayload P payload st = Returned s"
    by (simp add: handleStreamPayload_def Let_def)
  with assms show ?thesis by simp
qed

lemma isGraphEnd_eventType:
  "isGraphEnd opts payload \<Longrightarrow> eventType payload = Some ''on_chain_end''"
  by (simp add: isGraphEnd_def eventType_def coalesce_def)

lemma chat_returnsNormally:
  assumes "isGraphEnd (chatOptions P) payload"
  shows "returnsNormally (chatOptions P) payload name st"
proof (cases "handleStreamPayload P payload st")
  case (Returned s)
  then show ?thesis by (simp add: returnsNormally_def chatOptions_def)
next
  case (Threw s)
  then have "eventType payload = None" by (rule handleStreamPayload_Threw)
  with isGraphEnd_eventType [OF assms] show ?thesis by simp
qed

lemma forward_no_completion:
  assumes "\<not> isGraphEnd opts payload" and "d \<noteq> []" and "JSON_parse P d = Some payload"
  shows "\<not> completionInvoked (forward P opts name (Some d) st)"
proof -
  have "set (case onEvent opts of None \<Rightarrow> [] | Some callback \<Rightarrow> [EventCall payload name])
        \<subseteq> {EventCall payload name}"
    by (cases "onEvent opts") simp_all
  then have n: "CompleteCall \<notin> set (case onEvent opts of None \<Rightarrow> [] | Some callback \<Rightarrow> [EventCall payload name])"
    by blast
  show ?thesis
    unfolding completionInvoked_def fst_forward [OF assms(2,3)]
    using n assms(1) by simp
qed

lemma forward_throw_no_completion:
  assumes "\<not> returnsNormally opts payload name st" and "d \<noteq> []"
    and "JSON_parse P d = Some payload"
  shows "\<not> completionInvoked (forward P opts name (Some d) st)"
proof -
  have "set (case onEvent opts of None \<Rightarrow> [] | Some callback \<Rightarrow> [EventCall payload name])
        \<subseteq> {EventCall payload name}"
    by (cases "onEvent opts") simp_all
  then have n: "CompleteCall \<notin> set (case onEvent opts of None \<Rightarrow> [] | Some callback \<Rightarrow> [EventCall payload name])"
    by blast
  show ?thesis
    unfolding completionInvoked_def fst_forward [OF assms(2,3)]
    using n assms(1) by simp
qed

text \<open>
  Claim C2, amended: for every successfully parsed frame on which the event callback,
  if any, returns normally, the completion callback is invoked if and only if the
  payload's \<open>event\<close> is \<open>on_chain_end\<close> and its \<open>name\<close> is in the final-agent set (and
  a completion callback is configured); whatever the event callback does, an
  \<open>on_chain_end\<close> whose name is outside the set never invokes it; and with the
  callbacks of the chat component the equivalence holds for every parsed frame, since
  \<open>handleStreamPayload\<close> never throws on such a payload. When the event callback
  throws, the completion callback is not invoked.
\<close>

theorem completion_iff_graph_end:
  assumes "d \<noteq> []" and "JSON_parse P d = Some payload"
  shows "(returnsNormally opts payload name st \<longrightarrow>
            completionInvoked (forward P opts name (Some d) st)
              = (isGraphEnd opts payload \<and> onComplete opts \<noteq> None))
       \<and> (\<not> isGraphEnd opts payload \<longrightarrow> \<not> completionInvoked (forward P opts name (Some d) st))
       \<and> completionInvoked (forward P (chatOptions P) name (Some d) cst)
           = isGraphEnd (chatOptions P) payload
       \<and> (\<not> returnsNormally opts payload name st \<longrightarrow>
            \<not> completionInvoked (forward P opts name (Some d) st))"
proof -
  have t: "\<not> returnsNormally opts payload name st \<longrightarrow>
            \<not> completionInvoked (forward P opts name (Some d) st)"
    using forward_throw_no_completion [OF _ assms, of opts name st] by simp
  have c: "completionInvoked (forward P (chatOptions P) name (Some d) cst)
           = isGraphEnd (chatOptions P) payload"
  proof (cases "isGraphEnd (chatOptions P) payload")
    case True
    have "onComplete (chatOptions P) \<noteq> None"
      by (simp add: chatOptions_def)
    with forward_completion [OF assms chat_returnsNormally [OF True], of name cst] True
    show ?thesis by simp
  next
    case False
    with forward_no_completion [OF False assms] show ?thesis by simp
  qed
  have a: "returnsNormally opts payload name st \<longrightarrow>
            completionInvoked (forward P opts name (Some d) st)
              = (isGraphEnd opts payload \<and> onComplete opts \<noteq> None)"
    using forward_completion [OF assms, of opts name st] by simp
  have b: "\<not> isGraphEnd opts payload \<longrightarrow> \<not> completionInvoked (forward P opts name (Some d) st)"
    using forward_no_completion [OF _ assms, of opts name st] by simp
  from a b c t show ?thesis
    by (intro conjI)
qed

theorem completion_iff_graph_end_witness:
  "graphEndText \<noteq> []
   \<and> JSON_parse sampleParser graphEndText = Some graphEnd
   \<and> returnsNormally (chatOptions sampleParser) graphEnd ''on_chain_end'' sampleStreaming
   \<and> isGraphEnd (chatOptions sampleParser) graphEnd
   \<and> completionInvoked
        (forward sampleParser (chatOptions sampleParser) ''on_chain_end'' (Some graphEndText)
           sampleStreaming)
   \<and> helloText \<noteq> []
   \<and> JSON_parse sampleParser helloText = Some (streamPayload ''Hel'')
   \<and> \<not> isGraphEnd (chatOptions sampleParser) (streamPayload ''Hel'')
   \<and> \<not> completionInvoked
        (forward sampleParser (chatOptions sampleParser) ''on_chat_model_stream'' (Some helloText)
           sampleStreaming)"
proof -
  have g: "isGraphEnd (chatOptions sampleParser) graphEnd"
    by (simp add: isGraphEnd_def graphEnd_def final_def chatOptions_def)
  have n: "helloText \<noteq> []"
    by (simp add: helloText_def quoted_def)
  have h: "\<not> isGraphEnd (chatOptions sampleParser) (streamPayload ''Hel'')"
    by (simp add: isGraphEnd_def streamPayload_def)
  have r: "returnsNormally (chatOptions sampleParser) graphEnd ''on_chain_end'' sampleStreaming"
    using g by (rule chat_returnsNormally)
  have c: "onComplete (chatOptions sampleParser) \<noteq> None"
    by (simp add: chatOptions_def)
  from completion_iff_graph_end [OF graphEndText_nonempty sampleParser_graphEnd,
         of "chatOptions sampleParser" "''on_chain_end''" sampleStreaming sampleStreaming]
       completion_iff_graph_end [OF n sampleParser_hello,
         of "chatOptions sampleParser" "''on_chat_model_stream''" sampleStreaming sampleStreaming]
       g n h r c
  show ?thesis
    by (simp add: graphEndText_nonempty sampleParser_graphEnd sampleParser_hello)
qed

section \<open>Properties of the session controller\<close>

text \<open>
  Claim C6, as stated: a transport error surfaces a user-visible error notification.
  It does not: the error callback of the component is \<open>cleanup\<close>, which shows no
  toast.
\<close>

theorem transport_error_shows_no_notification:
  "eventSourceRef sampleStreaming = Some 0
   \<and> toasts sampleStreaming = []
   \<and> fst (transportError sampleParser sampleStreaming) = [ErrorCall]
   \<and> toasts (stateOf (snd (transportError sampleParser sampleStreaming))) = []"
  by (simp add: transportError_def sourceOnError_def chatOptions_def cleanup_def closeCurrent_def
      setStatus_def sampleStreaming_def)

text \<open>
  Claim C6, amended: when the transport reports an error while a stream is open, the
  error callback fires, the stream handle is closed and discarded and the status
  returns to \<open>ready\<close>; nothing else changes, and no notification is shown.
\<close>

theorem transport_error_cleans_up:
  assumes "eventSourceRef st = Some source"
  shows "transportError P st
         = ([ErrorCall],
            Returned (st\<lparr>closedSources := closedSources st @ [source], eventSourceRef := None,
                         status := ''ready''\<rparr>))
       \<and> toasts (stateOf (snd (transportError P st))) = toasts st"
  using assms
  by (simp add: transportError_def sourceOnError_def chatOptions_def cleanup_def closeCurrent_def
      setStatus_def)

theorem transport_error_cleans_up_witness:
  "eventSourceRef sampleStreaming = Some 0
   \<and> transportError sampleParser sampleStreaming
       = ([ErrorCall],
          Returned (sampleStreaming\<lparr>closedSources := [0], eventSourceRef := None,
                                    status := ''ready''\<rparr>))
   \<and> toasts (stateOf (snd (transportError sampleParser sampleStreaming))) = toasts sampleStreaming"
proof -
  have h: "eventSourceRef sampleStreaming = Some 0"
    by (simp add: sampleStreaming_def)
  have c: "closedSources sampleStreaming = []"
    by (simp add: sampleStreaming_def)
  from transport_error_cleans_up [OF h, of sampleParser] h c show ?thesis
    by simp
qed

text \<open>
  Claim C7: for every call of \<open>sendMessage\<close>, if the status is not \<open>ready\<close> or the
  content of the message is empty after trimming, a notice is shown and nothing else
  changes: the status, the transcript, the conversation id, the stream handle and the
  list of the REST calls issued are as they were.
\<close>

theorem sendMessage_rejected:
  assumes "status st \<noteq> ''ready'' \<or> messageContent messageParts = []"
  shows "sendMessage e messageParts st
         = st\<lparr>toasts := toasts st
                  @ [if status st \<noteq> ''ready'' then WaitForReply else NothingToSend]\<rparr>"
  using assms by (auto simp: sendMessage_def toast_def Let_def)

lemma messageContent_sampleUser: "messageContent (parts sampleUser) = ''buy 1 ETH''"
  by (simp add: messageContent_def sampleUser_def isTextPart_def string_evals)

text \<open>The first scenario of the specification: the first message of a new chat
  creates the conversation, appends the two turns and opens the stream.\<close>

lemma scenario_first_message:
  "sendMessage sampleEnv (parts sampleUser) sampleReady = sampleStreaming"
proof -
  have 1: "sendMessage sampleEnv (parts sampleUser) sampleReady
        = startConversation sampleEnv (parts sampleUser) ''buy 1 ETH''
            (sampleReady\<lparr>status := ''submitted''\<rparr>)"
    by (simp add: sendMessage_def messageContent_sampleUser Let_def)
       (simp add: sampleReady_def setStatus_def present_def)
  have 2: "startConversation sampleEnv (parts sampleUser) ''buy 1 ETH''
            (sampleReady\<lparr>status := ''submitted''\<rparr>) = sampleStreaming"
    by (simp add: startConversation_def sampleEnv_def present_def Let_def
        appendUserAndAssistant_def setMessages_def openStream_def closeCurrent_def setStatus_def
        sampleReady_def sampleStreaming_def sampleUser_def samplePlaceholder_def)
  from 1 2 show ?thesis by simp
qed

theorem sendMessage_rejected_witness:
  "status sampleStreaming \<noteq> ''ready''
   \<and> sendMessage sampleEnv (parts sampleUser) sampleStreaming
       = sampleStreaming\<lparr>toasts := [WaitForReply]\<rparr>
   \<and> status sampleReady = ''ready''
   \<and> messageContent blankParts = []
   \<and> sendMessage sampleEnv blankParts sampleReady = sampleReady\<lparr>toasts := [NothingToSend]\<rparr>"
proof -
  have h1: "status sampleStreaming \<noteq> ''ready''" "toasts sampleStreaming = []"
    by (simp_all add: sampleStreaming_def)
  have h2: "status sampleReady = ''ready''" "toasts sampleReady = []"
    by (simp_all add: sampleReady_def)
  have h3: "messageContent blankParts = []"
    by (simp add: messageContent_def blankParts_def isTextPart_def string_evals)
  from sendMessage_rejected [OF disjI1 [OF h1(1)], where e = sampleEnv
                               and messageParts = "parts sampleUser"]
       sendMessage_rejected [OF disjI2 [OF h3], where st = sampleReady and e = sampleEnv]
       h1 h2 h3
  show ?thesis by simp
qed

text \<open>The test of the inner \<open>catch\<close> of \<open>loadMessages\<close>: the message of the error
  matches \<open>/HTTP\s+404/\<close>. This is how the code knows a 404 of the REST client.\<close>

definition isNotFound :: "thrown \<Rightarrow> bool" where
  "isNotFound err = (case messageString err of None \<Rightarrow> False | Some msg \<Rightarrow> testHttp404 msg)"

text \<open>The description of the toast of a failed history fetch.\<close>

definition failureNotice :: "env \<Rightarrow> thrown \<Rightarrow> notice" where
  "failureNotice e err =
     (case messageString err of
        None \<Rightarrow> Described (JStr (typeErrorMessage e))
      | Some msg \<Rightarrow> describe HistoryFailed err)"

text \<open>
  Claim C9: when the history fetch fails with an HTTP 404 (an error whose message tests
  as not found), the transcript is set to the empty list and no notification is shown;
  for every other failure of the fetch an error notification is shown and the
  transcript is left as it is.
\<close>

theorem history_fetch_failure:
  assumes "targetConversationId \<noteq> []"
    and "getConversationsMessages e targetConversationId = Inl err"
  shows "(isNotFound err \<longrightarrow>
            messages (loadMessages e targetConversationId st) = []
            \<and> toasts (loadMessages e targetConversationId st) = toasts st)
       \<and> (\<not> isNotFound err \<longrightarrow>
            messages (loadMessages e targetConversationId st) = messages st
            \<and> messagesVersion (loadMessages e targetConversationId st) = messagesVersion st
            \<and> toasts (loadMessages e targetConversationId st)
                = toasts st @ [failureNotice e err])"
  using assms
  by (cases "messageString err")
     (simp_all add: loadMessages_def isNotFound_def failureNotice_def setMessagesTo_def
        setMessages_def toast_def)

theorem history_fetch_failure_witness:
  "getConversationsMessages sampleEnv ''missing''
     = Inl \<lparr>isError = True, errorMessage = JStr ''HTTP 404 Not Found''\<rparr>
   \<and> isNotFound \<lparr>isError = True, errorMessage = JStr ''HTTP 404 Not Found''\<rparr>
   \<and> messages (loadMessages sampleEnv ''missing'' sampleStreaming) = []
   \<and> toasts (loadMessages sampleEnv ''missing'' sampleStreaming) = []
   \<and> getConversationsMessages sampleEnv ''down''
     = Inl \<lparr>isError = True, errorMessage = JStr ''HTTP 500 Internal Server Error''\<rparr>
   \<and> \<not> isNotFound \<lparr>isError = True, errorMessage = JStr ''HTTP 500 Internal Server Error''\<rparr>
   \<and> messages (loadMessages sampleEnv ''down'' sampleStreaming) = [sampleUser, samplePlaceholder]
   \<and> toasts (loadMessages sampleEnv ''down'' sampleStreaming)
       = [Described (JStr ''HTTP 500 Internal Server Error'')]"
proof -
  have g1: "getConversationsMessages sampleEnv ''missing''
     = Inl \<lparr>isError = True, errorMessage = JStr ''HTTP 404 Not Found''\<rparr>"
    by (simp add: sampleEnv_def)
  have g2: "getConversationsMessages sampleEnv ''down''
     = Inl \<lparr>isError = True, errorMessage = JStr ''HTTP 500 Internal Server Error''\<rparr>"
    by (simp add: sampleEnv_def)
  have n1: "isNotFound \<lparr>isError = True, errorMessage = JStr ''HTTP 404 Not Found''\<rparr>"
    by (simp add: isNotFound_def messageString_def coalesce_def matchHttp404At_def
        startsWith_def isSpace_def)
  have n2: "\<not> isNotFound \<lparr>isError = True, errorMessage = JStr ''HTTP 500 Internal Server Error''\<rparr>"
    by (simp add: isNotFound_def messageString_def coalesce_def matchHttp404At_def
        startsWith_def isSpace_def)
  have f: "failureNotice sampleEnv \<lparr>isError = True, errorMessage = JStr ''HTTP 500 Internal Server Error''\<rparr>
        = Described (JStr ''HTTP 500 Internal Server Error'')"
    by (simp add: failureNotice_def messageString_def coalesce_def describe_def)
  have s: "messages sampleStreaming = [sampleUser, samplePlaceholder]" "toasts sampleStreaming = []"
    by (simp_all add: sampleStreaming_def)
  have c: "''missing'' \<noteq> []" "''down'' \<noteq> []"
    by simp_all
  from history_fetch_failure [OF c(1) g1, of sampleStreaming]
       history_fetch_failure [OF c(2) g2, of sampleStreaming]
       g1 g2 n1 n2 f s
  show ?thesis by simp
qed

end
